theory Spec2Isabelle
  imports Main "HOL-Library.Word" "HOL-Library.Multiset"
begin

unbundle bit_operations_syntax

section \<open>Go values used by the streaming client\<close>

type_synonym byte = "8 word"
type_synonym uint16 = "16 word"
type_synonym uint64 = "64 word"

text \<open>
  A run-time panic ends the goroutine instead of returning a value. The three kinds the
  modelled code can raise are kept apart.
\<close>

datatype panic = IndexOutOfRange | SliceBoundsOutOfRange | NilDereference

definition andThen :: "panic + 'a \<Rightarrow> ('a \<Rightarrow> panic + 'b) \<Rightarrow> panic + 'b" where
  "andThen m f = (case m of Inl p \<Rightarrow> Inl p | Inr x \<Rightarrow> f x)"

text \<open>
  A Go byte slice is a window on a backing array: \<open>elems\<close> are the \<open>len\<close> bytes of the
  window and \<open>spare\<close> the bytes of the array after the window, up to the capacity.
  An index expression \<open>s[i]\<close> is checked against the length, a slice expression
  \<open>s[lo:hi]\<close> against the capacity (Go specification, "Slice expressions": for slices,
  the upper index bound is the slice capacity \<open>cap(a)\<close> rather than the length).
\<close>

record slice =
  elems :: "byte list"
  spare :: "byte list"

definition len :: "slice \<Rightarrow> nat" where
  "len s = length (elems s)"

definition cap :: "slice \<Rightarrow> nat" where
  "cap s = length (elems s) + length (spare s)"

definition index :: "slice \<Rightarrow> nat \<Rightarrow> panic + byte" where
  "index s i = (if i < len s then Inr (elems s ! i) else Inl IndexOutOfRange)"

definition reslice :: "slice \<Rightarrow> nat \<Rightarrow> nat \<Rightarrow> panic + slice" where
  "reslice s lo hi =
     (if lo \<le> hi \<and> hi \<le> cap s
      then Inr \<lparr>elems = take (hi - lo) (drop lo (elems s @ spare s)),
                spare = drop hi (elems s @ spare s)\<rparr>
      else Inl SliceBoundsOutOfRange)"

text \<open>A Go string is a sequence of bytes; \<open>string(b)\<close> copies the bytes of the slice.\<close>

definition string_of_bytes :: "byte list \<Rightarrow> string" where
  "string_of_bytes bs = map (\<lambda>b. char_of (unat b)) bs"

definition string_of_slice :: "slice \<Rightarrow> string" where
  "string_of_slice s = string_of_bytes (elems s)"

text \<open>
  \<open>math.Float64frombits\<close> reinterprets 64 bits as an IEEE 754 double. A \<open>float64\<close> is
  kept as the bit pattern it holds, so two values are equal here exactly when their bits are.
\<close>

datatype float64 = Float64frombits uint64

subsection \<open>encoding/binary, little endian\<close>

text \<open>
  \<^verbatim>\<open>
  func (littleEndian) Uint16(b []byte) uint16 {
      _ = b[1]
      return uint16(b[0]) | uint16(b[1])<<8
  }
  func (littleEndian) Uint64(b []byte) uint64 {
      _ = b[7]
      return uint64(b[0]) | uint64(b[1])<<8 | uint64(b[2])<<16 | uint64(b[3])<<24 |
          uint64(b[4])<<32 | uint64(b[5])<<40 | uint64(b[6])<<48 | uint64(b[7])<<56
  }
  \<close>
\<close>

definition Uint16 :: "slice \<Rightarrow> panic + uint16" where
  "Uint16 b =
     andThen (index b 1) (\<lambda>_.
       Inr (ucast (elems b ! 0) OR push_bit 8 (ucast (elems b ! 1))))"

definition Uint64 :: "slice \<Rightarrow> panic + uint64" where
  "Uint64 b =
     andThen (index b 7) (\<lambda>_.
       Inr (ucast (elems b ! 0) OR push_bit 8 (ucast (elems b ! 1))
            OR push_bit 16 (ucast (elems b ! 2)) OR push_bit 24 (ucast (elems b ! 3))
            OR push_bit 32 (ucast (elems b ! 4)) OR push_bit 40 (ucast (elems b ! 5))
            OR push_bit 48 (ucast (elems b ! 6)) OR push_bit 56 (ucast (elems b ! 7))))"

text \<open>
  The value a byte sequence denotes when read least significant byte first. This is the
  meaning of "little-endian" the parser's results are compared with.
\<close>

fun le_nat :: "byte list \<Rightarrow> nat" where
  "le_nat [] = 0"
| "le_nat (b # bs) = unat b + 256 * le_nat bs"

fun le_word :: "byte list \<Rightarrow> 'a::len word" where
  "le_word [] = 0"
| "le_word (b # bs) = ucast b OR push_bit 8 (le_word bs)"

section \<open>model/smartstream.go\<close>

type_synonym ExchangeType = int
type_synonym SmartStreamSubsMode = "8 word"

definition LTP :: SmartStreamSubsMode where "LTP = 1"
definition QUOTE :: SmartStreamSubsMode where "QUOTE = 2"
definition SNAPQUOTE :: SmartStreamSubsMode where "SNAPQUOTE = 3"

record TokenInfo =
  ExchangeType :: ExchangeType
  Token :: string

record SmartApiBBSInfo =
  Flag :: uint16
  Quantity :: uint64
  Price :: uint64
  NumberOfOrders :: uint16

record LTPInfo =
  TokenInfo :: TokenInfo
  SequenceNumber :: uint64
  ExchangeFeedTimeEpochMillis :: uint64
  LastTradedPrice :: uint64

record Quote =
  TokenInfo :: TokenInfo
  SequenceNumber :: uint64
  ExchangeFeedTimeEpochMillis :: uint64
  LastTradedPrice :: uint64
  LastTradedQty :: uint64
  AvgTradedPrice :: uint64
  VolumeTradedToday :: uint64
  TotalBuyQty :: float64
  TotalSellQty :: float64
  OpenPrice :: uint64
  HighPrice :: uint64
  LowPrice :: uint64
  ClosePrice :: uint64

record SnapQuote =
  TokenInfo :: TokenInfo
  SequenceNumber :: uint64
  ExchangeFeedTimeEpochMillis :: uint64
  LastTradedPrice :: uint64
  LastTradedQty :: uint64
  AvgTradedPrice :: uint64
  VolumeTradedToday :: uint64
  TotalBuyQty :: float64
  TotalSellQty :: float64
  OpenPrice :: uint64
  HighPrice :: uint64
  LowPrice :: uint64
  ClosePrice :: uint64
  LastTradedTimestamp :: uint64
  OpenInterest :: uint64
  OpenInterestChangePerc :: float64
  BestFiveBuy :: "SmartApiBBSInfo list"
  BestFiveSell :: "SmartApiBBSInfo list"
  UpperCircuit :: uint64
  LowerCircuit :: uint64
  YearlyHighPrice :: uint64
  YearlyLowPrice :: uint64

record SubscriptionTokens =
  ExchangeType :: ExchangeType
  Tokens :: "string list"

record SubscriptionParam =
  Mode :: SmartStreamSubsMode
  TokenList :: "SubscriptionTokens list"

record SubscriptionRequest =
  CorrelationID :: string
  Action :: "8 word"
  Params :: SubscriptionParam

section \<open>smartstream/internal/parser/parser.go\<close>

text \<open>
  \<open>getToken\<close>: the loop over \<open>i = 2 .. 26\<close> counts \<open>tokenEnd\<close> up before it looks at
  \<open>msg[i]\<close> and leaves at the first zero byte.
\<close>

function getToken_loop :: "slice \<Rightarrow> nat \<Rightarrow> nat \<Rightarrow> panic + nat" where
  "getToken_loop msg i tokenEnd =
     (if i < 27
      then andThen (index msg i) (\<lambda>b.
             if b = 0 then Inr (tokenEnd + 1)
             else getToken_loop msg (i + 1) (tokenEnd + 1))
      else Inr tokenEnd)"
  by pat_completeness auto
termination
  by (relation "measure (\<lambda>(msg, i, tokenEnd). 27 - i)") auto

declare getToken_loop.simps [simp del]

definition getToken :: "slice \<Rightarrow> panic + TokenInfo" where
  "getToken msg =
     andThen (index msg 1) (\<lambda>b1.
     andThen (getToken_loop msg 2 0) (\<lambda>tokenEnd.
     andThen (reslice msg 2 (tokenEnd + 1)) (\<lambda>t.
       Inr \<lparr>TokenInfo.ExchangeType = uint b1, Token = string_of_slice t\<rparr>)))"

text \<open>The step every numeric field takes:
  \<open>binary.LittleEndian.Uint64(msg[lo:hi])\<close>, and the same with \<open>Uint16\<close>.\<close>

definition Uint64_at :: "slice \<Rightarrow> nat \<Rightarrow> nat \<Rightarrow> panic + uint64" where
  "Uint64_at msg lo hi = andThen (reslice msg lo hi) Uint64"

definition Uint16_at :: "slice \<Rightarrow> nat \<Rightarrow> nat \<Rightarrow> panic + uint16" where
  "Uint16_at msg lo hi = andThen (reslice msg lo hi) Uint16"

definition ParseLTP :: "slice \<Rightarrow> panic + LTPInfo" where
  "ParseLTP msg =
     andThen (Uint64_at msg 27 35) (\<lambda>sequenceNumer.
     andThen (Uint64_at msg 35 43) (\<lambda>exchangeTimestamp.
     andThen (Uint64_at msg 43 51) (\<lambda>ltp.
     andThen (getToken msg) (\<lambda>tok.
       Inr \<lparr>LTPInfo.TokenInfo = tok, SequenceNumber = sequenceNumer,
            ExchangeFeedTimeEpochMillis = exchangeTimestamp, LastTradedPrice = ltp\<rparr>))))"

definition ParseQuote :: "slice \<Rightarrow> panic + Quote" where
  "ParseQuote msg =
     andThen (ParseLTP msg) (\<lambda>ltpInfo.
     andThen (Uint64_at msg 51 59) (\<lambda>lastTradedQty.
     andThen (Uint64_at msg 59 67) (\<lambda>avgTradedPrice.
     andThen (Uint64_at msg 67 75) (\<lambda>volumeTradedToday.
     andThen (Uint64_at msg 75 83) (\<lambda>totalBuyQty.
     andThen (Uint64_at msg 83 91) (\<lambda>totalSellQty.
     andThen (Uint64_at msg 91 99) (\<lambda>openPrice.
     andThen (Uint64_at msg 99 107) (\<lambda>highPrice.
     andThen (Uint64_at msg 107 115) (\<lambda>lowPrice.
     andThen (Uint64_at msg 115 123) (\<lambda>closePrice.
       Inr \<lparr>Quote.TokenInfo = LTPInfo.TokenInfo ltpInfo,
            SequenceNumber = LTPInfo.SequenceNumber ltpInfo,
            ExchangeFeedTimeEpochMillis = LTPInfo.ExchangeFeedTimeEpochMillis ltpInfo,
            LastTradedPrice = LTPInfo.LastTradedPrice ltpInfo,
            LastTradedQty = lastTradedQty,
            AvgTradedPrice = avgTradedPrice,
            VolumeTradedToday = volumeTradedToday,
            TotalBuyQty = Float64frombits totalBuyQty,
            TotalSellQty = Float64frombits totalSellQty,
            OpenPrice = openPrice,
            HighPrice = highPrice,
            LowPrice = lowPrice,
            ClosePrice = closePrice\<rparr>))))))))))"

text \<open>
  \<open>getBestBuySellData\<close>: the loop \<open>for i := 0; i < 200; i = i + 20\<close> with its two
  accumulators; \<open>append\<close> adds at the end.
\<close>

definition readEntry :: "slice \<Rightarrow> nat \<Rightarrow> panic + SmartApiBBSInfo" where
  "readEntry msg i =
     andThen (Uint16_at msg i (i + 2)) (\<lambda>flag.
     andThen (Uint64_at msg (i + 2) (i + 10)) (\<lambda>quantity.
     andThen (Uint64_at msg (i + 10) (i + 18)) (\<lambda>price.
     andThen (Uint16_at msg (i + 18) (i + 20)) (\<lambda>numberOfOrders.
       Inr \<lparr>Flag = flag, Quantity = quantity, Price = price,
            NumberOfOrders = numberOfOrders\<rparr>))))"

function getBestBuySellData_loop ::
  "slice \<Rightarrow> nat \<Rightarrow> SmartApiBBSInfo list \<Rightarrow> SmartApiBBSInfo list
     \<Rightarrow> panic + (SmartApiBBSInfo list \<times> SmartApiBBSInfo list)" where
  "getBestBuySellData_loop msg i bestFiveBuy bestFiveSell =
     (if i < 200
      then andThen (readEntry msg i) (\<lambda>info.
             if Flag info = 1
             then getBestBuySellData_loop msg (i + 20) (bestFiveBuy @ [info]) bestFiveSell
             else getBestBuySellData_loop msg (i + 20) bestFiveBuy (bestFiveSell @ [info]))
      else Inr (bestFiveBuy, bestFiveSell))"
  by pat_completeness auto
termination
  by (relation "measure (\<lambda>(msg, i, bestFiveBuy, bestFiveSell). 200 - i)") auto

declare getBestBuySellData_loop.simps [simp del]

definition getBestBuySellData ::
  "slice \<Rightarrow> panic + (SmartApiBBSInfo list \<times> SmartApiBBSInfo list)" where
  "getBestBuySellData msg = getBestBuySellData_loop msg 0 [] []"

definition ParseSnapquote :: "slice \<Rightarrow> panic + SnapQuote" where
  "ParseSnapquote msg =
     andThen (ParseQuote msg) (\<lambda>quote.
     andThen (Uint64_at msg 123 131) (\<lambda>lastTradedTimestamp.
     andThen (Uint64_at msg 131 139) (\<lambda>openInterest.
     andThen (Uint64_at msg 139 147) (\<lambda>openInterestChangePerc.
     andThen (reslice msg 147 347) (\<lambda>depth.
     andThen (getBestBuySellData depth) (\<lambda>(bestFiveBuy, bestFiveSell).
     andThen (Uint64_at msg 347 355) (\<lambda>upperCircuit.
     andThen (Uint64_at msg 355 363) (\<lambda>lowerCircuit.
     andThen (Uint64_at msg 363 371) (\<lambda>yearlyHighPrice.
     andThen (Uint64_at msg 371 379) (\<lambda>yearlyLowPrice.
       Inr \<lparr>SnapQuote.TokenInfo = Quote.TokenInfo quote,
            SequenceNumber = Quote.SequenceNumber quote,
            ExchangeFeedTimeEpochMillis = Quote.ExchangeFeedTimeEpochMillis quote,
            LastTradedPrice = Quote.LastTradedPrice quote,
            LastTradedQty = Quote.LastTradedQty quote,
            AvgTradedPrice = Quote.AvgTradedPrice quote,
            VolumeTradedToday = Quote.VolumeTradedToday quote,
            TotalBuyQty = Quote.TotalBuyQty quote,
            TotalSellQty = Quote.TotalSellQty quote,
            OpenPrice = Quote.OpenPrice quote,
            HighPrice = Quote.HighPrice quote,
            LowPrice = Quote.LowPrice quote,
            ClosePrice = Quote.ClosePrice quote,
            LastTradedTimestamp = lastTradedTimestamp,
            OpenInterest = openInterest,
            OpenInterestChangePerc = Float64frombits openInterestChangePerc,
            BestFiveBuy = bestFiveBuy,
            BestFiveSell = bestFiveSell,
            UpperCircuit = upperCircuit,
            LowerCircuit = lowerCircuit,
            YearlyHighPrice = yearlyHighPrice,
            YearlyLowPrice = yearlyLowPrice\<rparr>))))))))))"

section \<open>smartstream/socket.go\<close>

text \<open>
  \<open>time.Duration\<close> is an \<open>int64\<close> count of nanoseconds: a 64-bit word, compared as a
  signed number (\<open><s\<close>, \<open>\<le>s\<close>), with arithmetic that wraps around.
\<close>

type_synonym Duration = "64 word"

definition Millisecond :: Duration where "Millisecond = 1000000"
definition Second :: Duration where "Second = 1000000000"

definition defaultReconnectMaxAttempts :: int where
  "defaultReconnectMaxAttempts = 300"

definition reconnectMinDelay :: Duration where
  "reconnectMinDelay = 5000 * Millisecond"

definition defaultReconnectMaxDelay :: Duration where
  "defaultReconnectMaxDelay = 60000 * Millisecond"

definition defaultConnectTimeout :: Duration where
  "defaultConnectTimeout = 7000 * Millisecond"

text \<open>An \<open>error\<close> value, with its message. The two message types are those of
  gorilla/websocket.\<close>

datatype goerror = Error (message: string)

definition TextMessage :: int where "TextMessage = 1"
definition BinaryMessage :: int where "BinaryMessage = 2"

text \<open>
  A callback field holds a function or \<open>nil\<close>; the record keeps which. What a call does
  is the caller's business: a call is recorded as an \<open>event\<close>, and so are the other
  effects of the modelled code (log lines, sleeping, closing the socket).
\<close>

record callbacks =
  onLTP :: bool
  onQuote :: bool
  onSnapquote :: bool
  onText :: bool
  onConnected :: bool
  onReconnectFailed :: bool
  onReconnect :: bool
  onError :: bool
  onClose :: bool

datatype event =
    CallOnLTP LTPInfo
  | CallOnQuote Quote
  | CallOnSnapquote SnapQuote
  | CallOnText "byte list"
  | CallOnError goerror
  | CallOnReconnect int Duration
  | LogPrintf string
  | Sleep Duration
  | ConnClose

text \<open>
  The connection belongs to gorilla/websocket. Of a connection the model keeps what
  \<open>WriteMessage(messageType, data)\<close> answers: \<open>None\<close> for \<open>nil\<close>, or the error.
\<close>

record Conn =
  WriteMessage :: "int \<Rightarrow> byte list \<Rightarrow> goerror option"

text \<open>
  The fields of \<open>WebSocket\<close> that the modelled functions read or write. (\<open>url\<close>,
  \<open>cancel\<close>, \<open>lastPongTime\<close> and the two subroutine context fields are used only by
  the connection, ping and idle-check code.) \<open>reconnectAttempt\<close> is a Go \<open>int\<close>.
\<close>

record WebSocket =
  clientID :: string
  feedToken :: string
  callbacks :: callbacks
  subsMap :: "SmartStreamSubsMode \<rightharpoonup> TokenInfo list"
  Conn :: "Conn option"
  autoReconnect :: bool
  reconnectMaxRetries :: int
  reconnectMaxDelay :: Duration
  connectTimeout :: Duration
  reconnectAttempt :: int

definition New :: "string \<Rightarrow> string \<Rightarrow> WebSocket" where
  "New cid tok =
     \<lparr>clientID = cid,
      feedToken = tok,
      callbacks = \<lparr>onLTP = False, onQuote = False, onSnapquote = False, onText = False,
                   onConnected = False, onReconnectFailed = False, onReconnect = False,
                   onError = False, onClose = False\<rparr>,
      subsMap = Map.empty,
      Conn = None,
      autoReconnect = True,
      reconnectMaxRetries = defaultReconnectMaxAttempts,
      reconnectMaxDelay = defaultReconnectMaxDelay,
      connectTimeout = defaultConnectTimeout,
      reconnectAttempt = 0\<rparr>"

text \<open>\<open>SetReconnectMaxDelay\<close>; the message is what \<open>fmt.Errorf\<close> prints for
  \<open>reconnectMinDelay.Seconds()*1000\<close> under \<open>%f\<close>.\<close>

definition SetReconnectMaxDelay :: "WebSocket \<Rightarrow> Duration \<Rightarrow> goerror option \<times> WebSocket" where
  "SetReconnectMaxDelay ws val =
     (if reconnectMinDelay <s val
      then (Some (Error ''ReconnectMaxDelay can't be less than 5000.000000ms''), ws)
      else (None, ws\<lparr>reconnectMaxDelay := val\<rparr>))"

subsection \<open>The backoff branch of \<open>ConnectWithContext\<close>\<close>

text \<open>
  \<open>time.Duration(math.Pow(2, float64(n)))\<close>. A power of two is exact in a \<open>float64\<close>,
  and up to \<open>2^62\<close> it converts to the same \<open>int64\<close>. From \<open>2^63\<close> on the value does not
  fit; Go leaves the result of such a conversion to the implementation, so it is the
  parameter \<open>ovf\<close>. A negative exponent gives a fraction, which truncates to zero.
\<close>

definition pow2_Duration :: "Duration \<Rightarrow> int \<Rightarrow> Duration" where
  "pow2_Duration ovf n = (if n < 0 then 0 else if n \<le> 62 then 2 ^ nat n else ovf)"

definition nextDelay :: "Duration \<Rightarrow> WebSocket \<Rightarrow> Duration" where
  "nextDelay ovf ws =
     (let d = pow2_Duration ovf (reconnectAttempt ws) * Second
      in if reconnectMaxDelay ws <s d \<or> d \<le>s 0 then reconnectMaxDelay ws else d)"

definition ws_onReconnect :: "WebSocket \<Rightarrow> int \<Rightarrow> Duration \<Rightarrow> event list" where
  "ws_onReconnect ws attempt delay =
     (if onReconnect (callbacks ws) then [CallOnReconnect attempt delay] else [])"

definition backoff :: "Duration \<Rightarrow> WebSocket \<Rightarrow> event list" where
  "backoff ovf ws =
     (if 0 < reconnectAttempt ws
      then ws_onReconnect ws (reconnectAttempt ws) (nextDelay ovf ws)
           @ [LogPrintf ''attempting reconnect in %f seconds'', Sleep (nextDelay ovf ws)]
           @ (if Conn ws \<noteq> None then [ConnClose] else [])
      else [])"

text \<open>The nanoseconds a run of events spends asleep.\<close>

fun slept :: "event list \<Rightarrow> int" where
  "slept [] = 0"
| "slept (Sleep d # evs) = sint d + slept evs"
| "slept (_ # evs) = slept evs"

subsection \<open>Subscribing\<close>

text \<open>
  \<open>m[k]\<close> on a Go map of slices: a missing key reads as the \<open>nil\<close> slice, and
  \<open>append\<close> to \<open>nil\<close> starts a new slice.
\<close>

definition lookup :: "('k \<rightharpoonup> 'v list) \<Rightarrow> 'k \<Rightarrow> 'v list" where
  "lookup m k = (case m k of None \<Rightarrow> [] | Some v \<Rightarrow> v)"

text \<open>
  \<open>for k, v := range m\<close> visits every entry of the map once, in an order the runtime
  chooses. The order is the parameter \<open>order\<close>, a list of keys.
\<close>

definition range_map :: "'k list \<Rightarrow> ('k \<rightharpoonup> 'v) \<Rightarrow> ('k \<times> 'v) list" where
  "range_map order m = List.map_filter (\<lambda>k. map_option (Pair k) (m k)) order"

definition addToken ::
  "(ExchangeType \<rightharpoonup> string list) \<Rightarrow> TokenInfo \<Rightarrow> (ExchangeType \<rightharpoonup> string list)" where
  "addToken exchangeTokenMap val =
     (let m = (if exchangeTokenMap (TokenInfo.ExchangeType val) = None
               then exchangeTokenMap(TokenInfo.ExchangeType val \<mapsto> [])
               else exchangeTokenMap)
      in m(TokenInfo.ExchangeType val \<mapsto> lookup m (TokenInfo.ExchangeType val) @ [Token val]))"

text \<open>\<open>createSubsRequest\<close> up to the call of \<open>json.Marshal\<close>: the request it builds.\<close>

definition subscriptionRequest ::
  "ExchangeType list \<Rightarrow> SmartStreamSubsMode \<Rightarrow> TokenInfo list \<Rightarrow> SubscriptionRequest" where
  "subscriptionRequest order mode tokenIds =
     (let exchangeTokenMap = foldl addToken Map.empty tokenIds;
          tokenList = map (\<lambda>(k, v). \<lparr>SubscriptionTokens.ExchangeType = k, Tokens = v\<rparr>)
                          (range_map order exchangeTokenMap);
          params = \<lparr>Mode = mode, TokenList = tokenList\<rparr>
      in \<lparr>CorrelationID = ''abc'', Action = 1, Params = params\<rparr>)"

text \<open>\<open>json.Marshal\<close> is the parameter \<open>marshal\<close>.\<close>

definition createSubsRequest ::
  "(SubscriptionRequest \<Rightarrow> goerror + byte list) \<Rightarrow> ExchangeType list
     \<Rightarrow> SmartStreamSubsMode \<Rightarrow> TokenInfo list \<Rightarrow> goerror + byte list" where
  "createSubsRequest marshal order mode tokenIds =
     marshal (subscriptionRequest order mode tokenIds)"

text \<open>A method call on the \<open>nil\<close> connection panics.\<close>

definition subscribeToTokens ::
  "(SubscriptionRequest \<Rightarrow> goerror + byte list) \<Rightarrow> ExchangeType list \<Rightarrow> WebSocket
     \<Rightarrow> SmartStreamSubsMode \<Rightarrow> TokenInfo list \<Rightarrow> panic + goerror option" where
  "subscribeToTokens marshal order ws mode tokenIds =
     (case createSubsRequest marshal order mode tokenIds of
        Inl err \<Rightarrow> Inr (Some err)
      | Inr request \<Rightarrow>
          (case Conn ws of
             None \<Rightarrow> Inl NilDereference
           | Some c \<Rightarrow> Inr (WriteMessage c TextMessage request)))"

definition Subscribe ::
  "(SubscriptionRequest \<Rightarrow> goerror + byte list) \<Rightarrow> ExchangeType list \<Rightarrow> WebSocket
     \<Rightarrow> SmartStreamSubsMode \<Rightarrow> TokenInfo list \<Rightarrow> panic + (goerror option \<times> WebSocket)" where
  "Subscribe marshal order ws mode tokenIds =
     andThen (subscribeToTokens marshal order ws mode tokenIds) (\<lambda>err.
       if err = None
       then (let m = (if subsMap ws mode = None then (subsMap ws)(mode \<mapsto> []) else subsMap ws)
             in Inr (err, ws\<lparr>subsMap := m(mode \<mapsto> lookup m mode @ tokenIds)\<rparr>))
       else Inr (err, ws))"

subsection \<open>The read loop\<close>

definition ws_onError :: "WebSocket \<Rightarrow> goerror \<Rightarrow> event list" where
  "ws_onError ws err = (if onError (callbacks ws) then [CallOnError err] else [])"

definition onTextMessage :: "WebSocket \<Rightarrow> slice \<Rightarrow> event list" where
  "onTextMessage ws text = (if onText (callbacks ws) then [CallOnText (elems text)] else [])"

text \<open>
  What \<open>readMessage\<close> does with one message it has read. \<open>SmartStreamSubsMode(msg[0])\<close>
  keeps the eight bits of the byte. The record callbacks are called without a \<open>nil\<close>
  check.
\<close>

definition dispatch :: "WebSocket \<Rightarrow> int \<Rightarrow> slice \<Rightarrow> panic + event list" where
  "dispatch ws mType msg =
     (if mType = BinaryMessage
      then andThen (index msg 0) (\<lambda>mode.
             if mode = LTP
             then andThen (ParseLTP msg) (\<lambda>ltp.
                    if onLTP (callbacks ws) then Inr [CallOnLTP ltp] else Inl NilDereference)
             else if mode = QUOTE
             then andThen (ParseQuote msg) (\<lambda>quote.
                    if onQuote (callbacks ws) then Inr [CallOnQuote quote]
                    else Inl NilDereference)
             else if mode = SNAPQUOTE
             then andThen (ParseSnapquote msg) (\<lambda>snapquote.
                    if onSnapquote (callbacks ws) then Inr [CallOnSnapquote snapquote]
                    else Inl NilDereference)
             else Inr [LogPrintf ''Message mode not  recognized''])
      else if mType = TextMessage then Inr (onTextMessage ws msg)
      else Inr [])"

text \<open>
  The loop runs against what the outside supplies at each turn: the context is done, or
  \<open>ReadMessage\<close> fails, or it delivers a message. When the supply ends the loop is
  waiting in \<open>ReadMessage\<close>.
\<close>

datatype inbound = CtxDone | ReadFails goerror | Frame int slice

datatype loop_end = Returned | Panicked panic | Waiting

fun readMessage :: "WebSocket \<Rightarrow> inbound list \<Rightarrow> event list \<times> loop_end" where
  "readMessage ws [] = ([], Waiting)"
| "readMessage ws (CtxDone # rest) = ([], Returned)"
| "readMessage ws (ReadFails err # rest) =
     (ws_onError ws (Error (''Error reading data: '' @ message err)), Returned)"
| "readMessage ws (Frame mType msg # rest) =
     (case dispatch ws mType msg of
        Inl p \<Rightarrow> ([], Panicked p)
      | Inr evs \<Rightarrow> (case readMessage ws rest of (evs', e) \<Rightarrow> (evs @ evs', e)))"

section \<open>The wire layout and sample frames\<close>

text \<open>The bytes of a payload at offsets \<open>lo\<close> up to, not including, \<open>hi\<close>.\<close>

definition field :: "slice \<Rightarrow> nat \<Rightarrow> nat \<Rightarrow> byte list" where
  "field msg lo hi = take (hi - lo) (drop lo (elems msg))"

text \<open>The depth entry the layout puts at offset \<open>i\<close>, and the ten entries of a region.\<close>

definition entry_at :: "slice \<Rightarrow> nat \<Rightarrow> SmartApiBBSInfo" where
  "entry_at msg i =
     \<lparr>Flag = le_word (field msg i (i + 2)),
      Quantity = le_word (field msg (i + 2) (i + 10)),
      Price = le_word (field msg (i + 10) (i + 18)),
      NumberOfOrders = le_word (field msg (i + 18) (i + 20))\<rparr>"

definition depth_entries :: "slice \<Rightarrow> SmartApiBBSInfo list" where
  "depth_entries msg = map (\<lambda>k. entry_at msg (20 * k)) [0..<10]"

text \<open>
  A best-price frame: mode 1, exchange 1, token \<open>1594\<close> padded with zero bytes,
  sequence number 7, timestamp 10000, price 100.
\<close>

definition ltp_frame :: "byte list" where
  "ltp_frame =
     [1, 1, 0x31, 0x35, 0x39, 0x34, 0, 0, 0, 0, 0, 0, 0, 0, 0, 0, 0, 0, 0, 0, 0, 0, 0, 0, 0, 0, 0,
      7, 0, 0, 0, 0, 0, 0, 0,
      0x10, 0x27, 0, 0, 0, 0, 0, 0,
      0x64, 0, 0, 0, 0, 0, 0, 0]"

text \<open>The same frame with a token field that holds 25 letters and no zero byte.\<close>

definition full_token_frame :: "byte list" where
  "full_token_frame =
     [1, 1, 0x41, 0x42, 0x43, 0x44, 0x45, 0x46, 0x47, 0x48, 0x49, 0x4A, 0x4B, 0x4C, 0x4D,
      0x4E, 0x4F, 0x50, 0x51, 0x52, 0x53, 0x54, 0x55, 0x56, 0x57, 0x58, 0x59,
      7, 0, 0, 0, 0, 0, 0, 0,
      0x10, 0x27, 0, 0, 0, 0, 0, 0,
      0x64, 0, 0, 0, 0, 0, 0, 0]"

text \<open>Two depth entries, a buy (flag 1) and a sell (flag 0), and a region of five and five.\<close>

definition buy_entry :: "byte list" where
  "buy_entry = [1, 0, 10, 0, 0, 0, 0, 0, 0, 0, 100, 0, 0, 0, 0, 0, 0, 0, 3, 0]"

definition sell_entry :: "byte list" where
  "sell_entry = [0, 0, 20, 0, 0, 0, 0, 0, 0, 0, 101, 0, 0, 0, 0, 0, 0, 0, 4, 0]"

definition depth_region :: "byte list" where
  "depth_region =
     buy_entry @ buy_entry @ buy_entry @ buy_entry @ buy_entry
     @ sell_entry @ sell_entry @ sell_entry @ sell_entry @ sell_entry"

text \<open>A snapshot payload of 379 bytes: the best-price frame, then zero bytes.\<close>

definition snap_frame :: "byte list" where
  "snap_frame = ltp_frame @ replicate 328 0"

text \<open>The instruments a request names: every token of every group, with the group's
  exchange id.\<close>

definition request_instruments :: "SubscriptionRequest \<Rightarrow> TokenInfo list" where
  "request_instruments req =
     concat (map (\<lambda>g. map (\<lambda>tok. \<lparr>TokenInfo.ExchangeType = SubscriptionTokens.ExchangeType g,
                                     Token = tok\<rparr>) (Tokens g))
                 (TokenList (Params req)))"

text \<open>An instrument, and a client whose connection answers every write with \<open>answer\<close>.\<close>

definition sample_instrument :: TokenInfo where
  "sample_instrument = \<lparr>TokenInfo.ExchangeType = 1, Token = ''1594''\<rparr>"

definition connected_client :: "goerror option \<Rightarrow> WebSocket" where
  "connected_client answer =
     (New ''A586457'' ''00998877'')\<lparr>Conn := Some \<lparr>WriteMessage = (\<lambda>messageType data. answer)\<rparr>\<rparr>"

section \<open>Lemmas\<close>

subsection \<open>Slices and little-endian reads\<close>

lemma andThen_Inr [simp]: "andThen (Inr x) f = f x"
  by (simp add: andThen_def)

lemma andThen_Inl [simp]: "andThen (Inl p) f = Inl p"
  by (simp add: andThen_def)

lemma andThen_eq_Inr:
  "andThen m f = Inr y \<longleftrightarrow> (\<exists>x. m = Inr x \<and> f x = Inr y)"
  by (cases m) simp_all

lemma or_push: "(ucast (b::byte) :: 'a::len word) OR push_bit 8 w = ucast b + push_bit 8 w"
  by (rule disjunctive_add[symmetric]) (auto simp: bit_simps dest: bit_imp_le_length)

lemma le_nat_bound: "le_nat bs < 2 ^ (8 * length bs)"
proof (induction bs)
  case Nil
  show ?case by simp
next
  case (Cons b bs)
  have "unat b < 256" using unsigned_less[of b] by simp
  moreover have "le_nat bs + 1 \<le> 2 ^ (8 * length bs)" using Cons by simp
  then have "256 * (le_nat bs + 1) \<le> 256 * 2 ^ (8 * length bs)" by (rule mult_le_mono2)
  ultimately show ?case by (simp add: power_add)
qed

lemma le_word_of_nat: "(le_word bs :: 'a::len word) = of_nat (le_nat bs)"
proof (induction bs)
  case Nil
  show ?case by simp
next
  case (Cons b bs)
  have "(le_word (b # bs) :: 'a word) = ucast b + push_bit 8 (le_word bs)"
    by (simp add: or_push)
  also have "\<dots> = of_nat (le_nat (b # bs))"
    by (simp add: Cons push_bit_eq_mult)
  finally show ?case .
qed

lemma unat_le_word:
  assumes "8 * length bs \<le> LENGTH('a::len)"
  shows "unat (le_word bs :: 'a word) = le_nat bs"
proof -
  have "le_nat bs < 2 ^ (8 * length bs)" by (rule le_nat_bound)
  also have "\<dots> \<le> (2::nat) ^ LENGTH('a)" using assms by (simp add: power_increasing)
  finally show ?thesis by (simp add: le_word_of_nat unat_of_nat)
qed

lemma Uint64_le_word:
  assumes "len b = 8"
  shows "Uint64 b = Inr (le_word (elems b))"
proof -
  have "length (elems b) = 8" using assms by (simp add: len_def)
  then obtain b0 b1 b2 b3 b4 b5 b6 b7 where e: "elems b = [b0, b1, b2, b3, b4, b5, b6, b7]"
    by (auto simp: eval_nat_numeral length_Suc_conv)
  show ?thesis
    by (simp add: Uint64_def index_def len_def e push_bit_or)
qed

lemma Uint16_le_word:
  assumes "len b = 2"
  shows "Uint16 b = Inr (le_word (elems b))"
proof -
  have "length (elems b) = 2" using assms by (simp add: len_def)
  then obtain b0 b1 where e: "elems b = [b0, b1]"
    by (auto simp: eval_nat_numeral length_Suc_conv)
  show ?thesis
    by (simp add: Uint16_def index_def len_def e)
qed

lemma reslice_in_len:
  assumes "lo \<le> hi" "hi \<le> len msg"
  shows "\<exists>s. reslice msg lo hi = Inr s \<and> elems s = field msg lo hi \<and> len s = hi - lo"
  using assms by (auto simp: reslice_def cap_def len_def field_def)


lemma Uint64_at_field:
  assumes "lo + 8 \<le> len msg"
  shows "Uint64_at msg lo (lo + 8) = Inr (le_word (field msg lo (lo + 8)))"
proof -
  obtain s where s: "reslice msg lo (lo + 8) = Inr s" "elems s = field msg lo (lo + 8)" "len s = 8"
    using reslice_in_len[of lo "lo + 8" msg] assms by auto
  show ?thesis
    unfolding Uint64_at_def s(1) andThen_Inr using Uint64_le_word[OF s(3)] unfolding s(2) .
qed

lemma Uint16_at_field:
  assumes "lo + 2 \<le> len msg"
  shows "Uint16_at msg lo (lo + 2) = Inr (le_word (field msg lo (lo + 2)))"
proof -
  obtain s where s: "reslice msg lo (lo + 2) = Inr s" "elems s = field msg lo (lo + 2)" "len s = 2"
    using reslice_in_len[of lo "lo + 2" msg] assms by auto
  show ?thesis
    unfolding Uint16_at_def s(1) andThen_Inr using Uint16_le_word[OF s(3)] unfolding s(2) .
qed


lemma field_length:
  assumes "hi \<le> len msg" "lo \<le> hi"
  shows "length (field msg lo hi) = hi - lo"
  using assms by (simp add: field_def len_def)

lemma unat_le_word_field64:
  assumes "lo + 8 \<le> len msg"
  shows "unat (le_word (field msg lo (lo + 8)) :: uint64) = le_nat (field msg lo (lo + 8))"
  using assms by (intro unat_le_word) (simp add: field_length)

lemma unat_le_word_field16:
  assumes "lo + 2 \<le> len msg"
  shows "unat (le_word (field msg lo (lo + 2)) :: uint16) = le_nat (field msg lo (lo + 2))"
  using assms by (intro unat_le_word) (simp add: field_length)

subsection \<open>The token scan\<close>

lemma getToken_loop_scan:
  assumes "27 \<le> len msg" "i \<le> 27"
  shows "getToken_loop msg i te =
           Inr (te + min (length (takeWhile (\<lambda>b. b \<noteq> 0) (drop i (take 27 (elems msg)))) + 1) (27 - i))"
  using assms
proof (induction msg i te rule: getToken_loop.induct)
  case (1 msg i te)
  show ?case
  proof (cases "i < 27")
    case False
    with "1.prems" have "i = 27" by simp
    then show ?thesis by (simp add: getToken_loop.simps[of msg 27])
  next
    case True
    with "1.prems" have il: "i < len msg" by simp
    then have idx: "index msg i = Inr (elems msg ! i)" by (simp add: index_def)
    have dr: "drop i (take 27 (elems msg)) = elems msg ! i # drop (i + 1) (take 27 (elems msg))"
      using True il Cons_nth_drop_Suc[of i "take 27 (elems msg)", symmetric]
      by (simp add: len_def del: drop_take)
    show ?thesis
    proof (cases "elems msg ! i = 0")
      case z: True
      show ?thesis using True z
        by (subst getToken_loop.simps) (simp add: idx dr)
    next
      case nz: False
      have ih: "getToken_loop msg (i + 1) (te + 1) =
                  Inr (te + 1 + min (length (takeWhile (\<lambda>b. b \<noteq> 0) (drop (i + 1) (take 27 (elems msg)))) + 1) (27 - (i + 1)))"
        using "1.IH"[OF True nz] "1.prems" True by simp
      have step: "getToken_loop msg i te = getToken_loop msg (i + 1) (te + 1)"
        using True nz by (subst getToken_loop.simps) (simp add: idx)
      show ?thesis unfolding step ih using True nz
        by (simp add: dr del: drop_take)
    qed
  qed
qed

lemma take_takeWhile_cut:
  "take (min (length (takeWhile P (take (Suc n) xs))) n) xs = takeWhile P (take n xs)"
proof (induction xs arbitrary: n)
  case Nil
  show ?case by simp
next
  case (Cons x xs)
  show ?case
  proof (cases n)
    case 0
    then show ?thesis by simp
  next
    case (Suc m)
    then show ?thesis using Cons[of m] by simp
  qed
qed

lemma getToken_value:
  assumes "27 \<le> len msg"
  shows "getToken msg =
           Inr \<lparr>TokenInfo.ExchangeType = uint (elems msg ! 1),
                Token = string_of_bytes (takeWhile (\<lambda>b. b \<noteq> 0) (field msg 2 26))\<rparr>"
proof -
  let ?P = "\<lambda>b::byte. b \<noteq> 0"
  let ?L = "length (takeWhile ?P (take 25 (drop 2 (elems msg))))"
  have i1: "index msg 1 = Inr (elems msg ! 1)" using assms by (simp add: index_def)
  have "getToken_loop msg 2 0 = Inr (0 + min (length (takeWhile ?P (drop 2 (take 27 (elems msg)))) + 1) (27 - 2))"
    using assms by (intro getToken_loop_scan) simp_all
  then have lp: "getToken_loop msg 2 0 = Inr (min (?L + 1) 25)"
    by (simp add: drop_take)
  have le: "min (?L + 1) 25 + 1 \<le> len msg" using assms by simp
  obtain t where t: "reslice msg 2 (min (?L + 1) 25 + 1) = Inr t"
     "elems t = field msg 2 (min (?L + 1) 25 + 1)"
    using reslice_in_len[of 2 "min (?L + 1) 25 + 1" msg] le by auto
  have "field msg 2 (min (?L + 1) 25 + 1) = take (min ?L 24) (drop 2 (elems msg))"
    by (simp add: field_def min_def)
  also have "\<dots> = takeWhile ?P (take 24 (drop 2 (elems msg)))"
    using take_takeWhile_cut[of ?P 24 "drop 2 (elems msg)"] by (simp add: eval_nat_numeral)
  also have "\<dots> = takeWhile ?P (field msg 2 26)" by (simp add: field_def)
  finally have "elems t = takeWhile ?P (field msg 2 26)" using t(2) by simp
  then show ?thesis
    unfolding getToken_def i1 lp andThen_Inr t(1) by (simp add: string_of_slice_def)
qed

subsection \<open>What the three parsers return on a payload that is long enough\<close>

lemma ParseLTP_value:
  assumes "51 \<le> len msg"
  shows "ParseLTP msg =
           Inr \<lparr>LTPInfo.TokenInfo =
                  \<lparr>TokenInfo.ExchangeType = uint (elems msg ! 1),
                   Token = string_of_bytes (takeWhile (\<lambda>b. b \<noteq> 0) (field msg 2 26))\<rparr>,
                SequenceNumber = le_word (field msg 27 35),
                ExchangeFeedTimeEpochMillis = le_word (field msg 35 43),
                LastTradedPrice = le_word (field msg 43 51)\<rparr>"
proof -
  have a: "Uint64_at msg 27 35 = Inr (le_word (field msg 27 35))"
    using Uint64_at_field[of 27 msg] assms by simp
  have b: "Uint64_at msg 35 43 = Inr (le_word (field msg 35 43))"
    using Uint64_at_field[of 35 msg] assms by simp
  have c: "Uint64_at msg 43 51 = Inr (le_word (field msg 43 51))"
    using Uint64_at_field[of 43 msg] assms by simp
  have t: "getToken msg = Inr \<lparr>TokenInfo.ExchangeType = uint (elems msg ! 1),
                Token = string_of_bytes (takeWhile (\<lambda>b. b \<noteq> 0) (field msg 2 26))\<rparr>"
    using assms by (intro getToken_value) simp
  show ?thesis unfolding ParseLTP_def a b c t andThen_Inr ..
qed

lemma ParseQuote_value:
  assumes "123 \<le> len msg"
  shows "\<exists>l. ParseLTP msg = Inr l \<and> ParseQuote msg =
           Inr \<lparr>Quote.TokenInfo = LTPInfo.TokenInfo l,
            SequenceNumber = LTPInfo.SequenceNumber l,
            ExchangeFeedTimeEpochMillis = LTPInfo.ExchangeFeedTimeEpochMillis l,
            LastTradedPrice = LTPInfo.LastTradedPrice l,
            LastTradedQty = le_word (field msg 51 59),
            AvgTradedPrice = le_word (field msg 59 67),
            VolumeTradedToday = le_word (field msg 67 75),
            TotalBuyQty = Float64frombits (le_word (field msg 75 83)),
            TotalSellQty = Float64frombits (le_word (field msg 83 91)),
            OpenPrice = le_word (field msg 91 99),
            HighPrice = le_word (field msg 99 107),
            LowPrice = le_word (field msg 107 115),
            ClosePrice = le_word (field msg 115 123)\<rparr>"
proof -
  obtain l where l: "ParseLTP msg = Inr l" using ParseLTP_value[of msg] assms by simp
  have f: "Uint64_at msg 51 59 = Inr (le_word (field msg 51 59))"
     "Uint64_at msg 59 67 = Inr (le_word (field msg 59 67))"
     "Uint64_at msg 67 75 = Inr (le_word (field msg 67 75))"
     "Uint64_at msg 75 83 = Inr (le_word (field msg 75 83))"
     "Uint64_at msg 83 91 = Inr (le_word (field msg 83 91))"
     "Uint64_at msg 91 99 = Inr (le_word (field msg 91 99))"
     "Uint64_at msg 99 107 = Inr (le_word (field msg 99 107))"
     "Uint64_at msg 107 115 = Inr (le_word (field msg 107 115))"
     "Uint64_at msg 115 123 = Inr (le_word (field msg 115 123))"
    using Uint64_at_field[of 51 msg] Uint64_at_field[of 59 msg] Uint64_at_field[of 67 msg]
      Uint64_at_field[of 75 msg] Uint64_at_field[of 83 msg] Uint64_at_field[of 91 msg]
      Uint64_at_field[of 99 msg] Uint64_at_field[of 107 msg] Uint64_at_field[of 115 msg] assms
    by simp_all
  show ?thesis unfolding ParseQuote_def l f andThen_Inr by simp
qed

subsection \<open>The depth loop\<close>

lemma readEntry_value:
  assumes "i + 20 \<le> len msg"
  shows "readEntry msg i = Inr (entry_at msg i)"
proof -
  have a: "Uint16_at msg i (i + 2) = Inr (le_word (field msg i (i + 2)))"
    using Uint16_at_field[of i msg] assms by simp
  have b: "Uint64_at msg (i + 2) (i + 10) = Inr (le_word (field msg (i + 2) (i + 10)))"
    using Uint64_at_field[of "i + 2" msg] assms by (simp add: ac_simps)
  have c: "Uint64_at msg (i + 10) (i + 18) = Inr (le_word (field msg (i + 10) (i + 18)))"
    using Uint64_at_field[of "i + 10" msg] assms by (simp add: ac_simps)
  have d: "Uint16_at msg (i + 18) (i + 20) = Inr (le_word (field msg (i + 18) (i + 20)))"
    using Uint16_at_field[of "i + 18" msg] assms by (simp add: ac_simps)
  show ?thesis unfolding readEntry_def a b c d andThen_Inr entry_at_def ..
qed

lemma getBestBuySellData_loop_value:
  assumes "200 \<le> len msg" "k \<le> 10"
  shows "getBestBuySellData_loop msg (200 - 20 * k) buy sell =
           Inr (buy @ filter (\<lambda>e. Flag e = 1) (map (\<lambda>j. entry_at msg (20 * j)) [10 - k..<10]),
                sell @ filter (\<lambda>e. Flag e \<noteq> 1) (map (\<lambda>j. entry_at msg (20 * j)) [10 - k..<10]))"
  using assms(2)
proof (induction k arbitrary: buy sell)
  case 0
  show ?case by (subst getBestBuySellData_loop.simps) simp
next
  case (Suc k)
  let ?i = "200 - 20 * Suc k"
  let ?e = "entry_at msg ?i"
  have lt: "?i < 200" using Suc.prems by simp
  have r: "readEntry msg ?i = Inr ?e"
    using assms(1) Suc.prems by (intro readEntry_value) simp
  have nx: "?i + 20 = 200 - 20 * k" using Suc.prems by simp
  have ix: "?i = 20 * (10 - Suc k)" using Suc.prems by simp
  have sk: "Suc (10 - Suc k) = 10 - k" using Suc.prems by arith
  have lk: "10 - Suc k < 10" using Suc.prems by arith
  have up: "[10 - Suc k..<10] = (10 - Suc k) # [10 - k..<10]"
    using upt_conv_Cons[OF lk] unfolding sk .
  have ih: "getBestBuySellData_loop msg (200 - 20 * k) b s =
           Inr (b @ filter (\<lambda>e. Flag e = 1) (map (\<lambda>j. entry_at msg (20 * j)) [10 - k..<10]),
                s @ filter (\<lambda>e. Flag e \<noteq> 1) (map (\<lambda>j. entry_at msg (20 * j)) [10 - k..<10]))" for b s
    using Suc.IH[of b s] Suc.prems by simp
  have step: "getBestBuySellData_loop msg ?i buy sell =
      (if Flag ?e = 1 then getBestBuySellData_loop msg (200 - 20 * k) (buy @ [?e]) sell
       else getBestBuySellData_loop msg (200 - 20 * k) buy (sell @ [?e]))"
    by (subst getBestBuySellData_loop.simps) (simp only: lt if_True r andThen_Inr nx)
  show ?case unfolding step ih up unfolding ix by simp
qed

lemma getBestBuySellData_value:
  assumes "200 \<le> len msg"
  shows "getBestBuySellData msg =
           Inr (filter (\<lambda>e. Flag e = 1) (depth_entries msg),
                filter (\<lambda>e. Flag e \<noteq> 1) (depth_entries msg))"
  using getBestBuySellData_loop_value[OF assms, of 10 "[]" "[]"]
  by (simp add: getBestBuySellData_def depth_entries_def)

lemma flags_five_five:
  assumes "map Flag es = [1, 1, 1, 1, 1, 0, 0, 0, 0, 0]"
  shows "filter (\<lambda>e. Flag e = 1) es = take 5 es \<and> filter (\<lambda>e. Flag e \<noteq> 1) es = drop 5 es"
proof -
  obtain e0 e1 e2 e3 e4 e5 e6 e7 e8 e9 where es: "es = [e0, e1, e2, e3, e4, e5, e6, e7, e8, e9]"
    using assms by (auto simp: map_eq_Cons_conv)
  show ?thesis using assms unfolding es by simp
qed

lemma depth_entry_fields:
  assumes "k < 10"
  shows "depth_entries msg ! k = entry_at msg (20 * k)"
  using assms by (simp add: depth_entries_def del: upt_Suc)

lemma ParseSnapquote_value:
  assumes "379 \<le> len msg"
  shows "\<exists>q depth. ParseQuote msg = Inr q \<and> reslice msg 147 347 = Inr depth \<and>
           elems depth = field msg 147 347 \<and> ParseSnapquote msg =
           Inr \<lparr>SnapQuote.TokenInfo = Quote.TokenInfo q,
            SequenceNumber = Quote.SequenceNumber q,
            ExchangeFeedTimeEpochMillis = Quote.ExchangeFeedTimeEpochMillis q,
            LastTradedPrice = Quote.LastTradedPrice q,
            LastTradedQty = Quote.LastTradedQty q,
            AvgTradedPrice = Quote.AvgTradedPrice q,
            VolumeTradedToday = Quote.VolumeTradedToday q,
            TotalBuyQty = Quote.TotalBuyQty q,
            TotalSellQty = Quote.TotalSellQty q,
            OpenPrice = Quote.OpenPrice q,
            HighPrice = Quote.HighPrice q,
            LowPrice = Quote.LowPrice q,
            ClosePrice = Quote.ClosePrice q,
            LastTradedTimestamp = le_word (field msg 123 131),
            OpenInterest = le_word (field msg 131 139),
            OpenInterestChangePerc = Float64frombits (le_word (field msg 139 147)),
            BestFiveBuy = filter (\<lambda>e. Flag e = 1) (depth_entries depth),
            BestFiveSell = filter (\<lambda>e. Flag e \<noteq> 1) (depth_entries depth),
            UpperCircuit = le_word (field msg 347 355),
            LowerCircuit = le_word (field msg 355 363),
            YearlyHighPrice = le_word (field msg 363 371),
            YearlyLowPrice = le_word (field msg 371 379)\<rparr>"
proof -
  obtain q where q: "ParseQuote msg = Inr q" using ParseQuote_value[of msg] assms by auto
  obtain depth where d: "reslice msg 147 347 = Inr depth" "elems depth = field msg 147 347"
      "len depth = 347 - 147"
    using reslice_in_len[of 147 347 msg] assms by auto
  have g: "getBestBuySellData depth = Inr (filter (\<lambda>e. Flag e = 1) (depth_entries depth),
                filter (\<lambda>e. Flag e \<noteq> 1) (depth_entries depth))"
    using d(3) by (intro getBestBuySellData_value) simp
  have f: "Uint64_at msg 123 131 = Inr (le_word (field msg 123 131))"
     "Uint64_at msg 131 139 = Inr (le_word (field msg 131 139))"
     "Uint64_at msg 139 147 = Inr (le_word (field msg 139 147))"
     "Uint64_at msg 347 355 = Inr (le_word (field msg 347 355))"
     "Uint64_at msg 355 363 = Inr (le_word (field msg 355 363))"
     "Uint64_at msg 363 371 = Inr (le_word (field msg 363 371))"
     "Uint64_at msg 371 379 = Inr (le_word (field msg 371 379))"
    using Uint64_at_field[of 123 msg] Uint64_at_field[of 131 msg] Uint64_at_field[of 139 msg]
      Uint64_at_field[of 347 msg] Uint64_at_field[of 355 msg] Uint64_at_field[of 363 msg]
      Uint64_at_field[of 371 msg] assms
    by simp_all
  show ?thesis unfolding ParseSnapquote_def q f d(1) g andThen_Inr using d(2) by simp
qed

subsection \<open>Layering\<close>

lemma ParseQuote_Inr_shares:
  assumes "ParseQuote msg = Inr q"
  shows "\<exists>l. ParseLTP msg = Inr l
           \<and> LTPInfo.TokenInfo l = Quote.TokenInfo q
           \<and> LTPInfo.SequenceNumber l = Quote.SequenceNumber q
           \<and> LTPInfo.ExchangeFeedTimeEpochMillis l = Quote.ExchangeFeedTimeEpochMillis q
           \<and> LTPInfo.LastTradedPrice l = Quote.LastTradedPrice q"
  using assms by (auto simp: ParseQuote_def andThen_eq_Inr)

lemma ParseSnapquote_Inr_shares:
  assumes "ParseSnapquote msg = Inr s"
  shows "\<exists>q. ParseQuote msg = Inr q
           \<and> Quote.TokenInfo q = SnapQuote.TokenInfo s
           \<and> Quote.SequenceNumber q = SnapQuote.SequenceNumber s
           \<and> Quote.ExchangeFeedTimeEpochMillis q = SnapQuote.ExchangeFeedTimeEpochMillis s
           \<and> Quote.LastTradedPrice q = SnapQuote.LastTradedPrice s
           \<and> Quote.LastTradedQty q = SnapQuote.LastTradedQty s
           \<and> Quote.AvgTradedPrice q = SnapQuote.AvgTradedPrice s
           \<and> Quote.VolumeTradedToday q = SnapQuote.VolumeTradedToday s
           \<and> Quote.TotalBuyQty q = SnapQuote.TotalBuyQty s
           \<and> Quote.TotalSellQty q = SnapQuote.TotalSellQty s
           \<and> Quote.OpenPrice q = SnapQuote.OpenPrice s
           \<and> Quote.HighPrice q = SnapQuote.HighPrice s
           \<and> Quote.LowPrice q = SnapQuote.LowPrice s
           \<and> Quote.ClosePrice q = SnapQuote.ClosePrice s"
  using assms by (auto simp: ParseSnapquote_def andThen_eq_Inr split: prod.splits)

subsection \<open>Slicing against the capacity\<close>







subsection \<open>A token field with a zero byte\<close>

lemma getToken_terminated:
  assumes "27 \<le> len msg" and "0 \<in> set (field msg 2 27)"
  shows "getToken msg =
           Inr \<lparr>TokenInfo.ExchangeType = uint (elems msg ! 1),
                Token = string_of_bytes (takeWhile (\<lambda>b. b \<noteq> 0) (field msg 2 27))\<rparr>"
proof -
  let ?P = "\<lambda>b::byte. b \<noteq> 0"
  have sp: "field msg 2 27 = field msg 2 26 @ [elems msg ! 26]"
    using assms(1) by (simp add: field_def len_def take_Suc_conv_app_nth eval_nat_numeral)
  have "takeWhile ?P (field msg 2 26 @ [elems msg ! 26]) = takeWhile ?P (field msg 2 26)"
  proof (cases "0 \<in> set (field msg 2 26)")
    case True
    then show ?thesis by (simp add: takeWhile_append1[of 0])
  next
    case False
    with assms(2) sp have z: "elems msg ! 26 = 0" by auto
    from False have a: "\<forall>x\<in>set (field msg 2 26). ?P x" by metis
    then have tw: "takeWhile ?P (field msg 2 26) = field msg 2 26"
      by simp
    have "takeWhile ?P (field msg 2 26 @ [elems msg ! 26]) = field msg 2 26"
      using a z by (simp add: takeWhile_append2)
    then show ?thesis unfolding tw .
  qed
  then show ?thesis using getToken_value[OF assms(1)] sp by simp
qed

subsection \<open>The fields of a best-price frame\<close>

lemma ParseLTP_fields:
  assumes "len msg = 51" and "elems msg ! 0 = 1"
  shows "\<exists>r. ParseLTP msg = Inr r
           \<and> unat (LTPInfo.SequenceNumber r) = le_nat (field msg 27 35)
           \<and> unat (LTPInfo.ExchangeFeedTimeEpochMillis r) = le_nat (field msg 35 43)
           \<and> unat (LTPInfo.LastTradedPrice r) = le_nat (field msg 43 51)
           \<and> getToken msg = Inr (LTPInfo.TokenInfo r)
           \<and> TokenInfo.ExchangeType (LTPInfo.TokenInfo r) = uint (elems msg ! 1)
           \<and> Token (LTPInfo.TokenInfo r) =
               string_of_bytes (takeWhile (\<lambda>b. b \<noteq> 0) (butlast (field msg 2 27)))
           \<and> (0 \<in> set (field msg 2 27) \<longrightarrow>
                 Token (LTPInfo.TokenInfo r) =
                   string_of_bytes (takeWhile (\<lambda>b. b \<noteq> 0) (field msg 2 27)))"
proof -
  have v: "ParseLTP msg =
           Inr \<lparr>LTPInfo.TokenInfo =
                  \<lparr>TokenInfo.ExchangeType = uint (elems msg ! 1),
                   Token = string_of_bytes (takeWhile (\<lambda>b. b \<noteq> 0) (field msg 2 26))\<rparr>,
                SequenceNumber = le_word (field msg 27 35),
                ExchangeFeedTimeEpochMillis = le_word (field msg 35 43),
                LastTradedPrice = le_word (field msg 43 51)\<rparr>"
    using assms(1) by (intro ParseLTP_value) simp
  have t: "getToken msg = Inr \<lparr>TokenInfo.ExchangeType = uint (elems msg ! 1),
                Token = string_of_bytes (takeWhile (\<lambda>b. b \<noteq> 0) (field msg 2 26))\<rparr>"
    using assms(1) by (intro getToken_value) simp
  have b: "butlast (field msg 2 27) = field msg 2 26"
    using assms(1) by (simp add: field_def len_def butlast_take)
  have 1: "unat (le_word (field msg 27 35) :: uint64) = le_nat (field msg 27 35)"
    using unat_le_word_field64[of 27 msg] assms(1) by simp
  have 2: "unat (le_word (field msg 35 43) :: uint64) = le_nat (field msg 35 43)"
    using unat_le_word_field64[of 35 msg] assms(1) by simp
  have 3: "unat (le_word (field msg 43 51) :: uint64) = le_nat (field msg 43 51)"
    using unat_le_word_field64[of 43 msg] assms(1) by simp
  have 4: "string_of_bytes (takeWhile (\<lambda>b. b \<noteq> 0) (field msg 2 26))
             = string_of_bytes (takeWhile (\<lambda>b. b \<noteq> 0) (field msg 2 27))"
    if "0 \<in> set (field msg 2 27)"
    using getToken_terminated[of msg] that t assms(1) by simp
  show ?thesis unfolding v t b using 1 2 3 4 by simp
qed

subsection \<open>The backoff delay\<close>

lemma pow2_Second_int:
  "((2::64 word) ^ n * Second) = word_of_int (2 ^ n * 1000000000)"
  by (simp add: Second_def word_of_int_power_hom[symmetric])

lemma sint_word_of_int_64: "sint (word_of_int k :: 64 word) = signed_take_bit 63 k"
  by (simp add: sint_sbintrunc')

lemma sint_pow2_Second_small:
  assumes "n \<le> 33"
  shows "sint ((2::64 word) ^ n * Second) = 2 ^ n * 1000000000"
proof -
  have "(2::int) ^ n \<le> 2 ^ 33" using assms by (intro power_increasing) simp_all
  then have "(2::int) ^ n * 1000000000 < 2 ^ 63" by simp
  moreover have "- (2 ^ 63) \<le> (2::int) ^ n * 1000000000" 
    by (rule order_trans[of _ 0]) simp_all
  ultimately have "signed_take_bit 63 ((2::int) ^ n * 1000000000) = 2 ^ n * 1000000000"
    by (intro signed_take_bit_int_eq_self) simp_all
  then show ?thesis unfolding pow2_Second_int sint_word_of_int_64 .
qed

lemma sint_pow2_Second_large:
  assumes "34 \<le> n"
  shows "sint ((2::64 word) ^ n * Second) \<le> 0 \<or> 2 ^ 43 \<le> sint ((2::64 word) ^ n * Second)"
proof -
  let ?k = "(2::int) ^ n * 1000000000"
  have "(2::int) ^ n = 2 ^ 34 * 2 ^ (n - 34)"
    using assms power_add[of "2::int" 34 "n - 34"] by simp
  then have "?k = 2 ^ 43 * (1953125 * 2 ^ (n - 34))" by simp
  then have d: "(2::int) ^ 43 dvd ?k" by (metis dvd_triv_left)
  have "(2::int) ^ 64 = 2 ^ 43 * 2 ^ 21" by simp
  then have d64: "(2::int) ^ 43 dvd 2 ^ 64" by (metis dvd_triv_left)
  have "sint ((2::64 word) ^ n * Second) = signed_take_bit 63 ?k"
    unfolding pow2_Second_int sint_word_of_int_64 ..
  also have "\<dots> = ?k mod 2 ^ 64 - 2 ^ 64 * of_bool (bit ?k 63)"
    by (simp add: signed_take_bit_eq_take_bit_minus take_bit_eq_mod)
  finally have s: "sint ((2::64 word) ^ n * Second) = ?k mod 2 ^ 64 - 2 ^ 64 * of_bool (bit ?k 63)" .
  have "(2::int) ^ 43 dvd ?k mod 2 ^ 64" using d d64 by (simp add: dvd_mod)
  moreover have "(2::int) ^ 43 dvd 2 ^ 64 * of_bool (bit ?k 63)" using d64 by (rule dvd_mult2)
  ultimately have "(2::int) ^ 43 dvd sint ((2::64 word) ^ n * Second)"
    unfolding s by (rule dvd_diff)
  then show ?thesis
    using zdvd_imp_le[of "2 ^ 43" "sint ((2::64 word) ^ n * Second)"] by linarith
qed

lemma nextDelay_min:
  assumes n: "0 < reconnectAttempt ws"
    and m: "reconnectMaxDelay ws <s 2 ^ 43"
    and o: "ovf = - (2 ^ 63) \<or> ovf = 2 ^ 63 - 1"
  shows "sint (nextDelay ovf ws)
           = min (sint (reconnectMaxDelay ws)) (2 ^ nat (reconnectAttempt ws) * 1000000000)"
proof -
  let ?n = "reconnectAttempt ws"
  let ?k = "(2::int) ^ nat ?n * 1000000000"
  have md: "sint (reconnectMaxDelay ws) < 2 ^ 43"
    using m by (simp add: word_sless_alt)
  consider "?n \<le> 33" | "34 \<le> ?n" "?n \<le> 62" | "63 \<le> ?n" by linarith
  then show ?thesis
  proof cases
    case 1
    then have p: "pow2_Duration ovf ?n = 2 ^ nat ?n" using n by (simp add: pow2_Duration_def)
    have s: "sint ((2::64 word) ^ nat ?n * Second) = ?k"
      using 1 n by (intro sint_pow2_Second_small) simp
    have "0 < ?k" by simp
    then show ?thesis using s
      by (simp add: nextDelay_def p word_sless_alt word_sle_eq Let_def min_def)
  next
    case 2
    then have p: "pow2_Duration ovf ?n = 2 ^ nat ?n" using n by (simp add: pow2_Duration_def)
    have "(2::int) ^ 34 \<le> 2 ^ nat ?n" using 2 by (intro power_increasing) simp_all
    then have big: "sint (reconnectMaxDelay ws) < ?k" using md by simp
    have "sint ((2::64 word) ^ nat ?n * Second) \<le> 0 \<or> 2 ^ 43 \<le> sint ((2::64 word) ^ nat ?n * Second)"
      using 2 by (intro sint_pow2_Second_large) simp
    then have "nextDelay ovf ws = reconnectMaxDelay ws"
      using md by (auto simp add: nextDelay_def p word_sless_alt word_sle_eq Let_def)
    then show ?thesis using big by (simp add: min_def)
  next
    case 3
    then have p: "pow2_Duration ovf ?n = ovf" using n by (simp add: pow2_Duration_def)
    have "(2::int) ^ 34 \<le> 2 ^ nat ?n" using 3 by (intro power_increasing) simp_all
    then have big: "sint (reconnectMaxDelay ws) < ?k" using md by simp
    have "ovf * Second \<le>s 0"
      using o by (auto simp: Second_def word_sle_eq)
    then have "nextDelay ovf ws = reconnectMaxDelay ws"
      by (simp add: nextDelay_def p Let_def)
    then show ?thesis using big by (simp add: min_def)
  qed
qed

lemma slept_append: "slept (xs @ ys) = slept xs + slept ys"
  by (induction xs rule: slept.induct) simp_all

lemma slept_backoff:
  assumes "0 < reconnectAttempt ws"
  shows "slept (backoff ovf ws) = sint (nextDelay ovf ws)"
  using assms by (simp add: backoff_def ws_onReconnect_def slept_append)

lemma New_reconnectMaxDelay:
  "reconnectMaxDelay (New cid tok) <s 2 ^ 43"
  by (simp add: New_def defaultReconnectMaxDelay_def Millisecond_def word_sless_alt)

lemma SetReconnectMaxDelay_keeps_bound:
  assumes "reconnectMaxDelay ws <s 2 ^ 43"
  shows "reconnectMaxDelay (snd (SetReconnectMaxDelay ws val)) <s 2 ^ 43"
  using assms
  by (auto simp: SetReconnectMaxDelay_def reconnectMinDelay_def defaultReconnectMaxDelay_def
      Millisecond_def word_sle_eq word_sless_alt)

subsection \<open>Building the subscription request\<close>

lemma addToken_eq:
  "addToken m t = m(TokenInfo.ExchangeType t \<mapsto> lookup m (TokenInfo.ExchangeType t) @ [Token t])"
  by (auto simp: addToken_def lookup_def Let_def)

lemma foldl_addToken:
  "foldl addToken m ts k =
     (if k \<in> TokenInfo.ExchangeType ` set ts
      then Some (lookup m k @ map Token (filter (\<lambda>t. TokenInfo.ExchangeType t = k) ts))
      else m k)"
proof (induction ts arbitrary: m)
  case Nil
  show ?case by simp
next
  case (Cons t ts)
  have "foldl addToken m (t # ts) k = foldl addToken (addToken m t) ts k" by simp
  also have "\<dots> = (if k \<in> TokenInfo.ExchangeType ` set ts
      then Some (lookup (addToken m t) k @ map Token (filter (\<lambda>t. TokenInfo.ExchangeType t = k) ts))
      else addToken m t k)"
    by (rule Cons.IH)
  also have "\<dots> = (if k \<in> TokenInfo.ExchangeType ` set (t # ts)
      then Some (lookup m k @ map Token (filter (\<lambda>t. TokenInfo.ExchangeType t = k) (t # ts)))
      else m k)"
    unfolding addToken_eq by (auto simp: lookup_def filter_empty_conv image_iff)
  finally show ?case .
qed

lemma range_map_total:
  assumes "\<forall>k \<in> set order. m k = Some (f k)"
  shows "range_map order m = map (\<lambda>k. (k, f k)) order"
  using assms by (induction order) (simp_all add: range_map_def List.map_filter_simps)

lemma mset_concat_filter:
  assumes "distinct ks"
  shows "mset (concat (map (\<lambda>k. filter (\<lambda>t. f t = k) xs) ks)) = filter_mset (\<lambda>t. f t \<in> set ks) (mset xs)"
  using assms
proof (induction ks)
  case Nil
  show ?case by simp
next
  case (Cons k ks)
  have "filter_mset (\<lambda>t. f t = k) (mset xs) + filter_mset (\<lambda>t. f t \<in> set ks) (mset xs)
          = filter_mset (\<lambda>t. f t = k \<or> f t \<in> set ks) (mset xs)"
    using Cons.prems by (induction xs) auto
  then show ?case using Cons by simp
qed

lemma rebuild_filtered:
  "map (\<lambda>t. \<lparr>TokenInfo.ExchangeType = k, Token = Token t\<rparr>)
       (filter (\<lambda>t. TokenInfo.ExchangeType t = k) xs)
     = filter (\<lambda>t. TokenInfo.ExchangeType t = k) xs"
  by (induction xs) auto

lemma TokenList_value:
  assumes "set order = TokenInfo.ExchangeType ` set tokenIds"
  shows "TokenList (Params (subscriptionRequest order mode tokenIds)) =
           map (\<lambda>k. \<lparr>SubscriptionTokens.ExchangeType = k,
                      Tokens = map Token (filter (\<lambda>t. TokenInfo.ExchangeType t = k) tokenIds)\<rparr>) order"
proof -
  have "\<forall>k \<in> set order. foldl addToken Map.empty tokenIds k
           = Some (map Token (filter (\<lambda>t. TokenInfo.ExchangeType t = k) tokenIds))"
    using assms by (simp add: foldl_addToken lookup_def)
  from range_map_total[OF this] show ?thesis
    by (simp add: subscriptionRequest_def Let_def comp_def)
qed

subsection \<open>\<open>Subscribe\<close> and the registry\<close>

lemma subsMap_append:
  "(if m k = None then m(k \<mapsto> []) else m)
      (k \<mapsto> lookup (if m k = None then m(k \<mapsto> []) else m) k @ xs)
     = m(k \<mapsto> lookup m k @ xs)"
  by (auto simp: lookup_def)

lemma Subscribe_sent:
  assumes "subscribeToTokens marshal order ws mode tokenIds = Inr None"
  shows "Subscribe marshal order ws mode tokenIds =
           Inr (None, ws\<lparr>subsMap := (subsMap ws)(mode \<mapsto> lookup (subsMap ws) mode @ tokenIds)\<rparr>)"
  unfolding Subscribe_def assms andThen_Inr Let_def subsMap_append by simp

lemma Subscribe_failed:
  assumes "subscribeToTokens marshal order ws mode tokenIds = Inr (Some err)"
  shows "Subscribe marshal order ws mode tokenIds = Inr (Some err, ws)"
  unfolding Subscribe_def assms andThen_Inr by simp

lemma Subscribe_Inr_cases:
  assumes "Subscribe marshal order ws mode tokenIds = Inr (res, ws1)"
  shows "(res = None \<and> ws1 = ws\<lparr>subsMap := (subsMap ws)(mode \<mapsto> lookup (subsMap ws) mode @ tokenIds)\<rparr>)
       \<or> (res \<noteq> None \<and> ws1 = ws)"
proof -
  obtain e where e: "subscribeToTokens marshal order ws mode tokenIds = Inr e"
    using assms by (auto simp: Subscribe_def andThen_eq_Inr)
  show ?thesis
  proof (cases e)
    case None
    with e Subscribe_sent[of marshal order ws mode tokenIds] assms show ?thesis by simp
  next
    case (Some err)
    with e Subscribe_failed[of marshal order ws mode tokenIds err] assms show ?thesis by simp
  qed
qed

section \<open>Layering of the three parsers\<close>

text \<open>
  Claim C1. On a payload of at least 379 bytes the three parsers all return a record, the
  record of \<open>ParseQuote\<close> has the same instrument, sequence number, exchange feed
  timestamp, last traded price, last traded quantity, average traded price, day volume,
  total buy and sell quantity, open, high, low and close as the record of
  \<open>ParseSnapquote\<close>, and the record of \<open>ParseLTP\<close> has the same instrument, sequence
  number, timestamp and price as the record of \<open>ParseQuote\<close>. (The two floating-point
  fields are compared as the bits they hold.)
\<close>

theorem parsers_agree_on_shared_fields:
  assumes "379 \<le> len msg"
  shows "\<exists>l q s. ParseLTP msg = Inr l \<and> ParseQuote msg = Inr q \<and> ParseSnapquote msg = Inr s
           \<and> Quote.TokenInfo q = SnapQuote.TokenInfo s
           \<and> Quote.SequenceNumber q = SnapQuote.SequenceNumber s
           \<and> Quote.ExchangeFeedTimeEpochMillis q = SnapQuote.ExchangeFeedTimeEpochMillis s
           \<and> Quote.LastTradedPrice q = SnapQuote.LastTradedPrice s
           \<and> Quote.LastTradedQty q = SnapQuote.LastTradedQty s
           \<and> Quote.AvgTradedPrice q = SnapQuote.AvgTradedPrice s
           \<and> Quote.VolumeTradedToday q = SnapQuote.VolumeTradedToday s
           \<and> Quote.TotalBuyQty q = SnapQuote.TotalBuyQty s
           \<and> Quote.TotalSellQty q = SnapQuote.TotalSellQty s
           \<and> Quote.OpenPrice q = SnapQuote.OpenPrice s
           \<and> Quote.HighPrice q = SnapQuote.HighPrice s
           \<and> Quote.LowPrice q = SnapQuote.LowPrice s
           \<and> Quote.ClosePrice q = SnapQuote.ClosePrice s
           \<and> LTPInfo.TokenInfo l = Quote.TokenInfo q
           \<and> LTPInfo.SequenceNumber l = Quote.SequenceNumber q
           \<and> LTPInfo.ExchangeFeedTimeEpochMillis l = Quote.ExchangeFeedTimeEpochMillis q
           \<and> LTPInfo.LastTradedPrice l = Quote.LastTradedPrice q"
proof -
  obtain s where s: "ParseSnapquote msg = Inr s"
    using ParseSnapquote_value[OF assms] by blast
  obtain q where q: "ParseQuote msg = Inr q"
     and qs: "Quote.TokenInfo q = SnapQuote.TokenInfo s"
           "Quote.SequenceNumber q = SnapQuote.SequenceNumber s"
           "Quote.ExchangeFeedTimeEpochMillis q = SnapQuote.ExchangeFeedTimeEpochMillis s"
           "Quote.LastTradedPrice q = SnapQuote.LastTradedPrice s"
           "Quote.LastTradedQty q = SnapQuote.LastTradedQty s"
           "Quote.AvgTradedPrice q = SnapQuote.AvgTradedPrice s"
           "Quote.VolumeTradedToday q = SnapQuote.VolumeTradedToday s"
           "Quote.TotalBuyQty q = SnapQuote.TotalBuyQty s"
           "Quote.TotalSellQty q = SnapQuote.TotalSellQty s"
           "Quote.OpenPrice q = SnapQuote.OpenPrice s"
           "Quote.HighPrice q = SnapQuote.HighPrice s"
           "Quote.LowPrice q = SnapQuote.LowPrice s"
           "Quote.ClosePrice q = SnapQuote.ClosePrice s"
    using ParseSnapquote_Inr_shares[OF s] by blast
  obtain l where l: "ParseLTP msg = Inr l"
     and lq: "LTPInfo.TokenInfo l = Quote.TokenInfo q"
        "LTPInfo.SequenceNumber l = Quote.SequenceNumber q"
        "LTPInfo.ExchangeFeedTimeEpochMillis l = Quote.ExchangeFeedTimeEpochMillis q"
        "LTPInfo.LastTradedPrice l = Quote.LastTradedPrice q"
    using ParseQuote_Inr_shares[OF q] by blast
  show ?thesis
    using l q s qs lq by blast
qed

text \<open>C1 on the sample snapshot payload.\<close>

theorem parsers_agree_on_shared_fields_witness:
  "379 \<le> len \<lparr>elems = snap_frame, spare = []\<rparr>
   \<and> (\<exists>l q s. ParseLTP \<lparr>elems = snap_frame, spare = []\<rparr> = Inr l
         \<and> ParseQuote \<lparr>elems = snap_frame, spare = []\<rparr> = Inr q
         \<and> ParseSnapquote \<lparr>elems = snap_frame, spare = []\<rparr> = Inr s
         \<and> Quote.TokenInfo q = SnapQuote.TokenInfo s
         \<and> Quote.SequenceNumber q = SnapQuote.SequenceNumber s
         \<and> Quote.TotalBuyQty q = SnapQuote.TotalBuyQty s
         \<and> Quote.ClosePrice q = SnapQuote.ClosePrice s
         \<and> LTPInfo.TokenInfo l = Quote.TokenInfo q
         \<and> LTPInfo.LastTradedPrice l = Quote.LastTradedPrice q)"
proof -
  have h: "379 \<le> len \<lparr>elems = snap_frame, spare = []\<rparr>"
    by (simp add: len_def snap_frame_def ltp_frame_def)
  show ?thesis using parsers_agree_on_shared_fields[OF h] h by blast
qed

section \<open>The maximum reconnect delay\<close>

text \<open>
  Claim C2, evaluated where it fails. On a fresh client \<open>SetReconnectMaxDelay\<close> answers
  the default of 60 seconds, which is above the floor of 5 seconds, with the error
  "can't be less than" and stores nothing; and it takes one second, which is below the
  floor, and stores it. The test of the code is \<open>val > reconnectMinDelay\<close>, the opposite
  of what its message and the comment on \<open>reconnectMinDelay\<close> say.
\<close>

theorem SetReconnectMaxDelay_rejects_above_floor:
  "reconnectMinDelay <s defaultReconnectMaxDelay
   \<and> SetReconnectMaxDelay (New ''A586457'' ''00998877'') defaultReconnectMaxDelay =
       (Some (Error ''ReconnectMaxDelay can't be less than 5000.000000ms''),
        New ''A586457'' ''00998877'')
   \<and> Second \<le>s reconnectMinDelay
   \<and> SetReconnectMaxDelay (New ''A586457'' ''00998877'') Second =
       (None, New ''A586457'' ''00998877''\<lparr>reconnectMaxDelay := Second\<rparr>)"
  by (simp add: SetReconnectMaxDelay_def reconnectMinDelay_def defaultReconnectMaxDelay_def
      Millisecond_def Second_def word_sle_eq word_sless_alt)

section \<open>The instrument token\<close>

text \<open>
  Claim C3, evaluated where it fails. The sample payload has 51 bytes, and its token field
  (offsets 2 to 26) holds the 25 letters \<open>A\<close> to \<open>Y\<close> and no zero byte. \<open>getToken\<close>
  returns the exchange id of offset 1 and a token of the first 24 letters only: the byte
  at offset 26 is lost. (With a zero byte in the field the token is the bytes before the
  first one, lemma \<open>getToken_terminated\<close>.)
\<close>

theorem getToken_unterminated_field_loses_last_byte:
  "len \<lparr>elems = full_token_frame, spare = []\<rparr> = 51
   \<and> 0 \<notin> set (field \<lparr>elems = full_token_frame, spare = []\<rparr> 2 27)
   \<and> string_of_bytes (field \<lparr>elems = full_token_frame, spare = []\<rparr> 2 27)
        = ''ABCDEFGHIJKLMNOPQRSTUVWXY''
   \<and> getToken \<lparr>elems = full_token_frame, spare = []\<rparr> =
        Inr \<lparr>TokenInfo.ExchangeType = 1, Token = ''ABCDEFGHIJKLMNOPQRSTUVWX''\<rparr>"
proof -
  let ?m = "\<lparr>elems = full_token_frame, spare = []\<rparr>"
  have l: "len ?m = 51" by (simp add: len_def full_token_frame_def)
  have n: "0 \<notin> set (field ?m 2 27)" by (simp add: field_def full_token_frame_def)
  have f: "string_of_bytes (field ?m 2 27) = ''ABCDEFGHIJKLMNOPQRSTUVWXY''"
    by (simp add: field_def full_token_frame_def string_of_bytes_def char_of_def bit_0)
  have "27 \<le> len ?m" using l by simp
  from getToken_value[OF this]
  have g: "getToken ?m = Inr \<lparr>TokenInfo.ExchangeType = 1, Token = ''ABCDEFGHIJKLMNOPQRSTUVWX''\<rparr>"
    by (simp add: field_def full_token_frame_def string_of_bytes_def char_of_def bit_0)
  show ?thesis using l n f g by simp
qed

section \<open>The depth split\<close>

text \<open>
  Claim C4. On a region of 200 bytes \<open>getBestBuySellData\<close> returns, without a panic, two
  sequences: the buy sequence holds the entries of the region whose flag is 1 and the sell
  sequence all the others, each in the order of the region, so the two lengths add up to
  ten. Entry \<open>k\<close> is read at offset \<open>20 * k\<close> as a little-endian flag (2 bytes), quantity
  (8 bytes), price (8 bytes) and order count (2 bytes). When the flags are
  \<open>1, 1, 1, 1, 1, 0, 0, 0, 0, 0\<close> the buy sequence is the first five entries and the sell
  sequence the last five.
\<close>

theorem getBestBuySellData_partitions_by_flag:
  assumes "len msg = 200"
  shows "\<exists>buy sell. getBestBuySellData msg = Inr (buy, sell)
           \<and> buy = filter (\<lambda>e. Flag e = 1) (depth_entries msg)
           \<and> sell = filter (\<lambda>e. Flag e \<noteq> 1) (depth_entries msg)
           \<and> length buy + length sell = 10
           \<and> (\<forall>k<10. unat (Flag (depth_entries msg ! k)) = le_nat (field msg (20 * k) (20 * k + 2))
                 \<and> unat (Quantity (depth_entries msg ! k)) = le_nat (field msg (20 * k + 2) (20 * k + 10))
                 \<and> unat (Price (depth_entries msg ! k)) = le_nat (field msg (20 * k + 10) (20 * k + 18))
                 \<and> unat (NumberOfOrders (depth_entries msg ! k)) = le_nat (field msg (20 * k + 18) (20 * k + 20)))
           \<and> (map Flag (depth_entries msg) = [1, 1, 1, 1, 1, 0, 0, 0, 0, 0]
                 \<longrightarrow> buy = take 5 (depth_entries msg) \<and> sell = drop 5 (depth_entries msg))"
proof -
  let ?es = "depth_entries msg"
  have v: "getBestBuySellData msg =
             Inr (filter (\<lambda>e. Flag e = 1) ?es, filter (\<lambda>e. Flag e \<noteq> 1) ?es)"
    using assms by (intro getBestBuySellData_value) simp
  have n: "length (filter (\<lambda>e. Flag e = 1) ?es) + length (filter (\<lambda>e. Flag e \<noteq> 1) ?es) = 10"
    using sum_length_filter_compl[of "\<lambda>e. Flag e = 1" ?es] by (simp add: depth_entries_def)
  have f: "unat (Flag (?es ! k)) = le_nat (field msg (20 * k) (20 * k + 2))
         \<and> unat (Quantity (?es ! k)) = le_nat (field msg (20 * k + 2) (20 * k + 10))
         \<and> unat (Price (?es ! k)) = le_nat (field msg (20 * k + 10) (20 * k + 18))
         \<and> unat (NumberOfOrders (?es ! k)) = le_nat (field msg (20 * k + 18) (20 * k + 20))"
    if k: "k < 10" for k
  proof -
    have b: "20 * k + 20 \<le> len msg" using k assms by simp
    have 1: "unat (le_word (field msg (20 * k) (20 * k + 2)) :: uint16) = le_nat (field msg (20 * k) (20 * k + 2))"
      using b by (intro unat_le_word_field16) simp
    have 2: "unat (le_word (field msg (20 * k + 2) (20 * k + 10)) :: uint64) = le_nat (field msg (20 * k + 2) (20 * k + 10))"
      using b unat_le_word_field64[of "20 * k + 2" msg] by (simp add: ac_simps)
    have 3: "unat (le_word (field msg (20 * k + 10) (20 * k + 18)) :: uint64) = le_nat (field msg (20 * k + 10) (20 * k + 18))"
      using b unat_le_word_field64[of "20 * k + 10" msg] by (simp add: ac_simps)
    have 4: "unat (le_word (field msg (20 * k + 18) (20 * k + 20)) :: uint16) = le_nat (field msg (20 * k + 18) (20 * k + 20))"
      using b unat_le_word_field16[of "20 * k + 18" msg] by (simp add: ac_simps)
    show ?thesis unfolding depth_entry_fields[OF k] entry_at_def using 1 2 3 4 by simp
  qed
  show ?thesis using v n f flags_five_five[of ?es] by blast
qed


text \<open>C4 on the sample region of five buy and five sell entries.\<close>

theorem getBestBuySellData_partitions_by_flag_witness:
  "len \<lparr>elems = depth_region, spare = []\<rparr> = 200
   \<and> map Flag (depth_entries \<lparr>elems = depth_region, spare = []\<rparr>) = [1, 1, 1, 1, 1, 0, 0, 0, 0, 0]
   \<and> getBestBuySellData \<lparr>elems = depth_region, spare = []\<rparr> =
        Inr (take 5 (depth_entries \<lparr>elems = depth_region, spare = []\<rparr>),
             drop 5 (depth_entries \<lparr>elems = depth_region, spare = []\<rparr>))
   \<and> unat (Price (depth_entries \<lparr>elems = depth_region, spare = []\<rparr> ! 7)) = 101"
proof -
  let ?R = "\<lparr>elems = depth_region, spare = []\<rparr>"
  have h1: "len ?R = 200"
    by (simp add: len_def depth_region_def buy_entry_def sell_entry_def)
  have h2: "map Flag (depth_entries ?R) = [1, 1, 1, 1, 1, 0, 0, 0, 0, 0]"
    by (simp add: depth_entries_def entry_at_def field_def depth_region_def buy_entry_def
        sell_entry_def upt_rec[of _ 10])
  have h3: "le_nat (field ?R (20 * 7 + 10) (20 * 7 + 18)) = 101"
    by (simp add: field_def depth_region_def buy_entry_def sell_entry_def)
  show ?thesis
    using getBestBuySellData_partitions_by_flag[OF h1] h1 h2 h3 by auto
qed

section \<open>Backoff\<close>

text \<open>
  Claim C5. With a positive attempt counter \<open>n\<close> the backoff branch sleeps for
  \<open>nextDelay\<close>, which is the smaller of the maximum delay and \<open>2^n\<close> seconds (in
  nanoseconds, \<open>2^n * 10^9\<close>); with the counter at 0 the branch does nothing, so nothing
  is slept. With the maximum delay at its default of 60 seconds the time slept does not
  decrease as the counter grows and never exceeds 60 seconds; for the counters 0 to 10 it
  is 0, 2, 4, 8, 16, 32, 60, 60, 60, 60, 60 seconds.

  The maximum delay is below \<open>2^43\<close> nanoseconds (about 2.4 hours), as every one the
  client can hold is: \<open>New\<close> sets 60 seconds and \<open>SetReconnectMaxDelay\<close> stores nothing
  above 5 seconds (lemmas \<open>New_reconnectMaxDelay\<close> and \<open>SetReconnectMaxDelay_keeps_bound\<close>).
  \<open>ovf\<close>, what the conversion of a power of two from \<open>2^63\<close> on gives, is the smallest
  \<open>int64\<close> (amd64) or the largest (arm64).
\<close>

theorem backoff_delay_is_capped_power_of_two:
  assumes o: "ovf = - (2 ^ 63) \<or> ovf = 2 ^ 63 - 1"
  shows "(0 < reconnectAttempt ws \<and> reconnectMaxDelay ws <s 2 ^ 43
            \<longrightarrow> Sleep (nextDelay ovf ws) \<in> set (backoff ovf ws)
              \<and> slept (backoff ovf ws) = sint (nextDelay ovf ws)
              \<and> sint (nextDelay ovf ws)
                  = min (sint (reconnectMaxDelay ws)) (2 ^ nat (reconnectAttempt ws) * 1000000000))
       \<and> (reconnectAttempt ws = 0 \<longrightarrow> backoff ovf ws = [])
       \<and> (reconnectMaxDelay ws = defaultReconnectMaxDelay
            \<longrightarrow> (\<forall>m n. 0 \<le> m \<and> m \<le> n
                  \<longrightarrow> slept (backoff ovf (ws\<lparr>reconnectAttempt := m\<rparr>))
                        \<le> slept (backoff ovf (ws\<lparr>reconnectAttempt := n\<rparr>))
                    \<and> slept (backoff ovf (ws\<lparr>reconnectAttempt := n\<rparr>)) \<le> 60000000000)
              \<and> map (\<lambda>n. slept (backoff ovf (ws\<lparr>reconnectAttempt := n\<rparr>))) [0, 1, 2, 3, 4, 5, 6, 7, 8, 9, 10]
                  = [0, 2000000000, 4000000000, 8000000000, 16000000000, 32000000000,
                     60000000000, 60000000000, 60000000000, 60000000000, 60000000000])"
proof -
  have p1: "Sleep (nextDelay ovf ws) \<in> set (backoff ovf ws)
              \<and> slept (backoff ovf ws) = sint (nextDelay ovf ws)
              \<and> sint (nextDelay ovf ws)
                  = min (sint (reconnectMaxDelay ws)) (2 ^ nat (reconnectAttempt ws) * 1000000000)"
    if "0 < reconnectAttempt ws" "reconnectMaxDelay ws <s 2 ^ 43"
    using that nextDelay_min[OF that o] slept_backoff[OF that(1)] by (simp add: backoff_def)
  have p2: "backoff ovf ws = []" if "reconnectAttempt ws = 0"
    using that by (simp add: backoff_def)
  have d: "slept (backoff ovf (ws\<lparr>reconnectAttempt := n\<rparr>))
             = (if 0 < n then min 60000000000 (2 ^ nat n * 1000000000) else 0)"
    if md: "reconnectMaxDelay ws = defaultReconnectMaxDelay" for n
  proof (cases "0 < n")
    case True
    let ?w = "ws\<lparr>reconnectAttempt := n\<rparr>"
    have a: "0 < reconnectAttempt ?w" using True by simp
    have b: "reconnectMaxDelay ?w <s 2 ^ 43"
      using md by (simp add: defaultReconnectMaxDelay_def Millisecond_def word_sless_alt)
    have "sint (reconnectMaxDelay ?w) = 60000000000"
      using md by (simp add: defaultReconnectMaxDelay_def Millisecond_def)
    then show ?thesis using nextDelay_min[OF a b o] slept_backoff[OF a] True by simp
  next
    case False
    then show ?thesis by (simp add: backoff_def)
  qed
  have p3: "slept (backoff ovf (ws\<lparr>reconnectAttempt := m\<rparr>))
                        \<le> slept (backoff ovf (ws\<lparr>reconnectAttempt := n\<rparr>))
                    \<and> slept (backoff ovf (ws\<lparr>reconnectAttempt := n\<rparr>)) \<le> 60000000000"
    if md: "reconnectMaxDelay ws = defaultReconnectMaxDelay" and mn: "0 \<le> m" "m \<le> n" for m n
  proof -
    define a :: int where "a = 2 ^ nat m * 1000000000"
    define b :: int where "b = 2 ^ nat n * 1000000000"
    have "(2::int) ^ nat m \<le> 2 ^ nat n" using mn by (intro power_increasing) simp_all
    then have ab: "a \<le> b" "0 < a" "0 < b" unfolding a_def b_def by simp_all
    have "(if 0 < m then min 60000000000 a else 0) \<le> (if 0 < n then min 60000000000 b else 0)
        \<and> (if 0 < n then min 60000000000 b else 0) \<le> 60000000000"
      using ab mn by (auto simp: min_def)
    then show ?thesis unfolding d[OF md] a_def b_def .
  qed
  have p4: "map (\<lambda>n. slept (backoff ovf (ws\<lparr>reconnectAttempt := n\<rparr>))) [0, 1, 2, 3, 4, 5, 6, 7, 8, 9, 10]
                  = [0, 2000000000, 4000000000, 8000000000, 16000000000, 32000000000,
                     60000000000, 60000000000, 60000000000, 60000000000, 60000000000]"
    if md: "reconnectMaxDelay ws = defaultReconnectMaxDelay"
    unfolding list.map d[OF md] by simp
  show ?thesis using p1 p2 p3 p4 by blast
qed

text \<open>C5 on a fresh client after 3 and after 7 failed attempts, and before any.\<close>

theorem backoff_delay_is_capped_power_of_two_witness:
  "0 < reconnectAttempt (New ''A586457'' ''00998877''\<lparr>reconnectAttempt := 3\<rparr>)
   \<and> reconnectMaxDelay (New ''A586457'' ''00998877''\<lparr>reconnectAttempt := 3\<rparr>) <s 2 ^ 43
   \<and> slept (backoff (- (2 ^ 63)) (New ''A586457'' ''00998877''\<lparr>reconnectAttempt := 3\<rparr>))
        = 8000000000
   \<and> slept (backoff (- (2 ^ 63)) (New ''A586457'' ''00998877''\<lparr>reconnectAttempt := 7\<rparr>))
        = 60000000000
   \<and> backoff (- (2 ^ 63)) (New ''A586457'' ''00998877'') = []"
proof -
  let ?w = "New ''A586457'' ''00998877''"
  have a: "0 < reconnectAttempt (?w\<lparr>reconnectAttempt := 3\<rparr>)" by simp
  have b: "reconnectMaxDelay (?w\<lparr>reconnectAttempt := 3\<rparr>) <s 2 ^ 43"
    by (simp add: New_def defaultReconnectMaxDelay_def Millisecond_def word_sless_alt)
  have c: "sint (reconnectMaxDelay (?w\<lparr>reconnectAttempt := 3\<rparr>)) = 60000000000"
    by (simp add: New_def defaultReconnectMaxDelay_def Millisecond_def)
  have e: "reconnectAttempt ?w = 0" "reconnectMaxDelay ?w = defaultReconnectMaxDelay"
    by (simp_all add: New_def)
  have o: "(- (2 ^ 63) :: Duration) = - (2 ^ 63) \<or> (- (2 ^ 63) :: Duration) = 2 ^ 63 - 1" by simp
  show ?thesis
    using backoff_delay_is_capped_power_of_two[OF o, of "?w\<lparr>reconnectAttempt := 3\<rparr>"]
      backoff_delay_is_capped_power_of_two[OF o, of ?w] a b c e
    by simp
qed

section \<open>The subscription registry\<close>

text \<open>
  Claim C6. \<open>Subscribe\<close> sends through \<open>subscribeToTokens\<close>, which on an open connection
  answers what \<open>WriteMessage\<close> answers. When the send succeeds, \<open>Subscribe\<close> returns no
  error and the registry holds, under the mode, its old sequence followed by the given
  instruments, and under every other mode what it held; nothing is removed or merged, so
  after two successful calls with the same instruments they are there twice. When the send
  fails, \<open>Subscribe\<close> returns the error and the client, registry included, is unchanged.
\<close>

theorem Subscribe_appends_only_when_sent:
  "(Conn ws = Some c \<and> createSubsRequest marshal order mode tokenIds = Inr request
       \<longrightarrow> subscribeToTokens marshal order ws mode tokenIds
             = Inr (WriteMessage c TextMessage request))
   \<and> (subscribeToTokens marshal order ws mode tokenIds = Inr None
       \<longrightarrow> Subscribe marshal order ws mode tokenIds =
             Inr (None, ws\<lparr>subsMap := (subsMap ws)(mode \<mapsto> lookup (subsMap ws) mode @ tokenIds)\<rparr>))
   \<and> (subscribeToTokens marshal order ws mode tokenIds = Inr (Some err)
       \<longrightarrow> Subscribe marshal order ws mode tokenIds = Inr (Some err, ws))
   \<and> (Subscribe marshal order ws mode tokenIds = Inr (None, ws1)
       \<longrightarrow> lookup (subsMap ws1) mode = lookup (subsMap ws) mode @ tokenIds
           \<and> (\<forall>mode'. mode' \<noteq> mode \<longrightarrow> subsMap ws1 mode' = subsMap ws mode'))
   \<and> (Subscribe marshal order ws mode tokenIds = Inr (None, ws1)
        \<and> Subscribe marshal order' ws1 mode tokenIds = Inr (None, ws2)
       \<longrightarrow> lookup (subsMap ws2) mode = lookup (subsMap ws) mode @ tokenIds @ tokenIds)
   \<and> (Subscribe marshal order ws mode tokenIds = Inr (Some err, ws1) \<longrightarrow> ws1 = ws)"
proof -
  have 1: "subscribeToTokens marshal order ws mode tokenIds = Inr (WriteMessage c TextMessage request)"
    if "Conn ws = Some c" "createSubsRequest marshal order mode tokenIds = Inr request"
    using that by (simp add: subscribeToTokens_def)
  have 4: "lookup (subsMap w1) mode = lookup (subsMap w) mode @ tokenIds
           \<and> (\<forall>mode'. mode' \<noteq> mode \<longrightarrow> subsMap w1 mode' = subsMap w mode')"
    if "Subscribe marshal ord w mode tokenIds = Inr (None, w1)" for w w1 ord
    using Subscribe_Inr_cases[OF that] by (simp add: lookup_def)
  have 5: "lookup (subsMap ws2) mode = lookup (subsMap ws) mode @ tokenIds @ tokenIds"
    if "Subscribe marshal order ws mode tokenIds = Inr (None, ws1)"
       "Subscribe marshal order' ws1 mode tokenIds = Inr (None, ws2)"
    using 4[OF that(1)] 4[OF that(2)] by simp
  have 6: "ws1 = ws" if "Subscribe marshal order ws mode tokenIds = Inr (Some err, ws1)"
    using Subscribe_Inr_cases[OF that] by simp
  show ?thesis
    using 1 4[of order ws ws1] 5 6
      Subscribe_sent[of marshal order ws mode tokenIds]
      Subscribe_failed[of marshal order ws mode tokenIds err]
    by blast
qed

text \<open>C6 on a connected client: two successful calls with the same instrument, and a
  call whose write fails.\<close>

theorem Subscribe_appends_only_when_sent_witness:
  "subscribeToTokens (\<lambda>r. Inr []) [1] (connected_client None) SNAPQUOTE [sample_instrument] = Inr None
   \<and> Subscribe (\<lambda>r. Inr []) [1] (connected_client None) SNAPQUOTE [sample_instrument]
       = Inr (None, (connected_client None)\<lparr>subsMap := [SNAPQUOTE \<mapsto> [sample_instrument]]\<rparr>)
   \<and> Subscribe (\<lambda>r. Inr []) [1]
        ((connected_client None)\<lparr>subsMap := [SNAPQUOTE \<mapsto> [sample_instrument]]\<rparr>)
        SNAPQUOTE [sample_instrument]
       = Inr (None, (connected_client None)
                \<lparr>subsMap := [SNAPQUOTE \<mapsto> [sample_instrument, sample_instrument]]\<rparr>)
   \<and> subscribeToTokens (\<lambda>r. Inr []) [1] (connected_client (Some (Error ''broken pipe'')))
        SNAPQUOTE [sample_instrument] = Inr (Some (Error ''broken pipe''))
   \<and> Subscribe (\<lambda>r. Inr []) [1] (connected_client (Some (Error ''broken pipe'')))
        SNAPQUOTE [sample_instrument]
       = Inr (Some (Error ''broken pipe''), connected_client (Some (Error ''broken pipe'')))"
proof -
  let ?w = "connected_client None"
  let ?w1 = "?w\<lparr>subsMap := [SNAPQUOTE \<mapsto> [sample_instrument]]\<rparr>"
  let ?f = "connected_client (Some (Error ''broken pipe''))"
  have a: "subscribeToTokens (\<lambda>r. Inr []) [1] ?w SNAPQUOTE [sample_instrument] = Inr None"
    by (simp add: subscribeToTokens_def createSubsRequest_def connected_client_def)
  have b: "subscribeToTokens (\<lambda>r. Inr []) [1] ?w1 SNAPQUOTE [sample_instrument] = Inr None"
    by (simp add: subscribeToTokens_def createSubsRequest_def connected_client_def)
  have c: "subscribeToTokens (\<lambda>r. Inr []) [1] ?f SNAPQUOTE [sample_instrument]
             = Inr (Some (Error ''broken pipe''))"
    by (simp add: subscribeToTokens_def createSubsRequest_def connected_client_def)
  have m: "subsMap ?w = Map.empty" by (simp add: connected_client_def New_def)
  show ?thesis
    using a b c
      Subscribe_appends_only_when_sent[of ?w _ "\<lambda>r. Inr []" "[1]" SNAPQUOTE "[sample_instrument]"]
      Subscribe_appends_only_when_sent[of ?w1 _ "\<lambda>r. Inr []" "[1]" SNAPQUOTE "[sample_instrument]"]
      Subscribe_appends_only_when_sent[of ?f _ "\<lambda>r. Inr []" "[1]" SNAPQUOTE "[sample_instrument]" _
        "Error ''broken pipe''"]
    by (simp add: m lookup_def)
qed

section \<open>The best-price parser\<close>

text \<open>
  Claim C7, evaluated where it fails. The sample buffer has 51 bytes and the mode tag 1; its
  token field (offsets 2 to 26) holds the 25 letters \<open>A\<close> to \<open>Y\<close> and no zero byte.
  \<open>ParseLTP\<close> returns the sequence number 7, the timestamp 10000 and the price 100 that
  the bytes at offsets 27 to 34, 35 to 42 and 43 to 50 encode, and the exchange id 1 of
  offset 1, but a token of the first 24 letters only: the byte at offset 26 is lost, as in
  \<open>getToken\<close>. (On every buffer of 51 bytes the three numbers are the little-endian
  values at their offsets, and with a zero byte in the token field the token is the bytes
  before the first one: lemma \<open>ParseLTP_fields\<close>.)
\<close>

theorem ParseLTP_unterminated_token_loses_last_byte:
  "len \<lparr>elems = full_token_frame, spare = []\<rparr> = 51
   \<and> elems \<lparr>elems = full_token_frame, spare = []\<rparr> ! 0 = 1
   \<and> 0 \<notin> set (field \<lparr>elems = full_token_frame, spare = []\<rparr> 2 27)
   \<and> string_of_bytes (field \<lparr>elems = full_token_frame, spare = []\<rparr> 2 27)
        = ''ABCDEFGHIJKLMNOPQRSTUVWXY''
   \<and> le_nat (field \<lparr>elems = full_token_frame, spare = []\<rparr> 27 35) = 7
   \<and> le_nat (field \<lparr>elems = full_token_frame, spare = []\<rparr> 35 43) = 10000
   \<and> le_nat (field \<lparr>elems = full_token_frame, spare = []\<rparr> 43 51) = 100
   \<and> ParseLTP \<lparr>elems = full_token_frame, spare = []\<rparr> =
        Inr \<lparr>LTPInfo.TokenInfo =
               \<lparr>TokenInfo.ExchangeType = 1, Token = ''ABCDEFGHIJKLMNOPQRSTUVWX''\<rparr>,
             SequenceNumber = 7, ExchangeFeedTimeEpochMillis = 10000,
             LastTradedPrice = 100\<rparr>"
proof -
  let ?m = "\<lparr>elems = full_token_frame, spare = []\<rparr>"
  have l: "len ?m = 51" by (simp add: len_def full_token_frame_def)
  have m: "elems ?m ! 0 = 1" by (simp add: full_token_frame_def)
  have n: "0 \<notin> set (field ?m 2 27)" by (simp add: field_def full_token_frame_def)
  have f: "string_of_bytes (field ?m 2 27) = ''ABCDEFGHIJKLMNOPQRSTUVWXY''"
    by (simp add: field_def full_token_frame_def string_of_bytes_def char_of_def bit_0)
  have v: "le_nat (field ?m 27 35) = 7" "le_nat (field ?m 35 43) = 10000"
      "le_nat (field ?m 43 51) = 100"
    by (simp_all add: field_def full_token_frame_def)
  have "51 \<le> len ?m" using l by simp
  from ParseLTP_value[OF this]
  have p: "ParseLTP ?m =
        Inr \<lparr>LTPInfo.TokenInfo =
               \<lparr>TokenInfo.ExchangeType = 1, Token = ''ABCDEFGHIJKLMNOPQRSTUVWX''\<rparr>,
             SequenceNumber = 7, ExchangeFeedTimeEpochMillis = 10000,
             LastTradedPrice = 100\<rparr>"
    by (simp add: field_def full_token_frame_def string_of_bytes_def char_of_def bit_0)
  show ?thesis using l m n f v p by simp
qed

section \<open>Short payloads\<close>




section \<open>Frames of an unknown mode\<close>

text \<open>
  Claim C9. A binary frame whose first byte is not 1, 2 or 3 makes the read loop write
  one log line and nothing else: no callback is called, no parser runs (no panic is
  possible, whatever the length of the frame), and the loop goes on with what comes
  next.
\<close>

theorem unrecognized_mode_is_dropped:
  assumes "0 < len msg" and "elems msg ! 0 \<notin> {1, 2, 3}"
  shows "dispatch ws BinaryMessage msg = Inr [LogPrintf ''Message mode not  recognized'']
       \<and> readMessage ws (Frame BinaryMessage msg # rest)
           = (LogPrintf ''Message mode not  recognized'' # fst (readMessage ws rest),
              snd (readMessage ws rest))"
proof -
  have d: "dispatch ws BinaryMessage msg = Inr [LogPrintf ''Message mode not  recognized'']"
    using assms by (simp add: dispatch_def index_def LTP_def QUOTE_def SNAPQUOTE_def)
  show ?thesis unfolding readMessage.simps d by (simp add: split_beta)
qed

text \<open>C9 on two one-byte frames of modes 9 and 0, followed by the end of the context.\<close>

theorem unrecognized_mode_is_dropped_witness:
  "0 < len \<lparr>elems = [9], spare = []\<rparr>
   \<and> elems \<lparr>elems = [9], spare = []\<rparr> ! 0 \<notin> {1, 2, 3}
   \<and> readMessage (New ''A586457'' ''00998877'')
        [Frame BinaryMessage \<lparr>elems = [9], spare = []\<rparr>, Frame BinaryMessage \<lparr>elems = [0], spare = []\<rparr>, CtxDone]
      = ([LogPrintf ''Message mode not  recognized'', LogPrintf ''Message mode not  recognized''],
         Returned)"
proof -
  have a: "0 < len \<lparr>elems = [9], spare = []\<rparr>" "0 < len \<lparr>elems = [0], spare = []\<rparr>"
    by (simp_all add: len_def)
  have b: "elems \<lparr>elems = [9], spare = []\<rparr> ! 0 \<notin> {1, 2, 3}"
     "elems \<lparr>elems = [0], spare = []\<rparr> ! 0 \<notin> {1, 2, 3}" by simp_all
  show ?thesis
    using a(1) b(1)
      unrecognized_mode_is_dropped[OF a(1) b(1), of "New ''A586457'' ''00998877''"]
      unrecognized_mode_is_dropped[OF a(2) b(2), of "New ''A586457'' ''00998877''"]
    by simp
qed

section \<open>The subscription request\<close>

text \<open>
  Claim C10. The request \<open>createSubsRequest\<close> hands to \<open>json.Marshal\<close> has action 1,
  correlation id \<open>abc\<close> and the given mode, whatever the input. The loop over the map
  visits each exchange id of the input once (\<open>order\<close>); the token list then has one group
  per exchange id, in that order, each group holds the tokens of the input instruments of
  that exchange, in the order of the input, and the instruments the request names are,
  counted with repetitions, the input instruments.
\<close>

theorem createSubsRequest_groups_by_exchange:
  "createSubsRequest marshal order mode tokenIds = marshal (subscriptionRequest order mode tokenIds)
   \<and> Action (subscriptionRequest order mode tokenIds) = 1
   \<and> CorrelationID (subscriptionRequest order mode tokenIds) = ''abc''
   \<and> Mode (Params (subscriptionRequest order mode tokenIds)) = mode
   \<and> (distinct order \<and> set order = TokenInfo.ExchangeType ` set tokenIds
        \<longrightarrow> map SubscriptionTokens.ExchangeType (TokenList (Params (subscriptionRequest order mode tokenIds)))
              = order
          \<and> (\<forall>g \<in> set (TokenList (Params (subscriptionRequest order mode tokenIds))).
                Tokens g = map Token (filter (\<lambda>t. TokenInfo.ExchangeType t
                                                      = SubscriptionTokens.ExchangeType g) tokenIds))
          \<and> mset (request_instruments (subscriptionRequest order mode tokenIds)) = mset tokenIds)"
proof -
  let ?req = "subscriptionRequest order mode tokenIds"
  have a: "createSubsRequest marshal order mode tokenIds = marshal ?req"
    by (simp add: createSubsRequest_def)
  have b: "Action ?req = 1" "CorrelationID ?req = ''abc''" "Mode (Params ?req) = mode"
    by (simp_all add: subscriptionRequest_def Let_def)
  have c: "map SubscriptionTokens.ExchangeType (TokenList (Params ?req)) = order
          \<and> (\<forall>g \<in> set (TokenList (Params ?req)).
                Tokens g = map Token (filter (\<lambda>t. TokenInfo.ExchangeType t
                                                      = SubscriptionTokens.ExchangeType g) tokenIds))
          \<and> mset (request_instruments ?req) = mset tokenIds"
    if d: "distinct order" and s: "set order = TokenInfo.ExchangeType ` set tokenIds"
  proof -
    note tl = TokenList_value[OF s, of mode]
    have 1: "map SubscriptionTokens.ExchangeType (TokenList (Params ?req)) = order"
      unfolding tl by (simp add: comp_def)
    have 2: "\<forall>g \<in> set (TokenList (Params ?req)).
                Tokens g = map Token (filter (\<lambda>t. TokenInfo.ExchangeType t
                                                      = SubscriptionTokens.ExchangeType g) tokenIds)"
      unfolding tl by auto
    have "request_instruments ?req
            = concat (map (\<lambda>k. filter (\<lambda>t. TokenInfo.ExchangeType t = k) tokenIds) order)"
      unfolding request_instruments_def tl
      by (simp add: comp_def rebuild_filtered)
    then have "mset (request_instruments ?req)
                 = filter_mset (\<lambda>t. TokenInfo.ExchangeType t \<in> set order) (mset tokenIds)"
      using mset_concat_filter[OF d, of TokenInfo.ExchangeType tokenIds] by simp
    also have "\<dots> = mset tokenIds" unfolding s by (simp add: filter_mset_eq_conv) 
    finally show ?thesis using 1 2 by blast
  qed
  show ?thesis using a b c by blast
qed

text \<open>C10 on three instruments of two exchanges.\<close>

theorem createSubsRequest_groups_by_exchange_witness:
  "distinct [1, 2 :: int]
   \<and> set [1, 2] = TokenInfo.ExchangeType `
        set [sample_instrument, \<lparr>TokenInfo.ExchangeType = 2, Token = ''35001''\<rparr>,
             \<lparr>TokenInfo.ExchangeType = 1, Token = ''2885''\<rparr>]
   \<and> TokenList (Params (subscriptionRequest [1, 2] SNAPQUOTE
        [sample_instrument, \<lparr>TokenInfo.ExchangeType = 2, Token = ''35001''\<rparr>,
         \<lparr>TokenInfo.ExchangeType = 1, Token = ''2885''\<rparr>]))
      = [\<lparr>SubscriptionTokens.ExchangeType = 1, Tokens = [''1594'', ''2885'']\<rparr>,
         \<lparr>SubscriptionTokens.ExchangeType = 2, Tokens = [''35001'']\<rparr>]
   \<and> mset (request_instruments (subscriptionRequest [1, 2] SNAPQUOTE
        [sample_instrument, \<lparr>TokenInfo.ExchangeType = 2, Token = ''35001''\<rparr>,
         \<lparr>TokenInfo.ExchangeType = 1, Token = ''2885''\<rparr>]))
      = mset [sample_instrument, \<lparr>TokenInfo.ExchangeType = 2, Token = ''35001''\<rparr>,
             \<lparr>TokenInfo.ExchangeType = 1, Token = ''2885''\<rparr>]
   \<and> Action (subscriptionRequest [1, 2] SNAPQUOTE
        [sample_instrument, \<lparr>TokenInfo.ExchangeType = 2, Token = ''35001''\<rparr>,
         \<lparr>TokenInfo.ExchangeType = 1, Token = ''2885''\<rparr>]) = 1"
proof -
  let ?ts = "[sample_instrument, \<lparr>TokenInfo.ExchangeType = 2, Token = ''35001''\<rparr>,
             \<lparr>TokenInfo.ExchangeType = 1, Token = ''2885''\<rparr>]"
  have a: "distinct [1, 2 :: int]" by simp
  have b: "set [1, 2] = TokenInfo.ExchangeType ` set ?ts"
    by (auto simp: sample_instrument_def)
  have c: "TokenList (Params (subscriptionRequest [1, 2] SNAPQUOTE ?ts))
      = [\<lparr>SubscriptionTokens.ExchangeType = 1, Tokens = [''1594'', ''2885'']\<rparr>,
         \<lparr>SubscriptionTokens.ExchangeType = 2, Tokens = [''35001'']\<rparr>]"
    by (simp add: subscriptionRequest_def addToken_def lookup_def range_map_def
        List.map_filter_simps sample_instrument_def Let_def)
  show ?thesis
    using createSubsRequest_groups_by_exchange[of "\<lambda>r. Inr []" "[1, 2]" SNAPQUOTE ?ts] a b c
    by blast
qed

end
